theory Spec2Isabelle
  imports Complex_Main "HOL-Library.Word"
begin

unbundle bit_operations_syntax

section \<open>JavaScript primitives used by the services\<close>

text \<open>
  A JavaScript number is an IEEE 754 binary64 value.  It is represented by the rational it
  denotes, and every arithmetic operation rounds its exact result to the nearest binary64
  value, a tie going to the even significand (\<open>double\<close>).  Counts and indices are
  \<open>nat\<close>, rounded confidences are \<open>int\<close>, and the operands of the bitwise operators are
  \<open>32 word\<close> (every bitwise operator first applies ToInt32).  The value \<open>NaN\<close> is
  \<open>None\<close>.  Overflow to infinity (magnitudes from \<open>2^1024\<close>) is outside the model.
  Strings are restricted to ASCII.
\<close>

type_synonym int32 = "32 word"

subsection \<open>Rounding to binary64\<close>

text \<open>The greatest \<open>k\<close> with \<open>2^k \<le> n\<close>, for \<open>n \<ge> 1\<close>.\<close>

function ilog2 :: "int \<Rightarrow> int" where
  "ilog2 n = (if n < 2 then 0 else 1 + ilog2 (n div 2))"
  by pat_completeness auto
termination
  by (relation "measure nat") auto

declare ilog2.simps [simp del]

text \<open>The least \<open>k\<close> with \<open>n \<le> 2^k\<close>.\<close>

definition ceil_log2 :: "int \<Rightarrow> int" where
  "ceil_log2 n = (if n < 2 then 0 else 1 + ilog2 (n - 1))"

function pow2i :: "int \<Rightarrow> int" where
  "pow2i k = (if k \<le> 0 then 1 else 2 * pow2i (k - 1))"
  by pat_completeness auto
termination
  by (relation "measure nat") auto

declare pow2i.simps [simp del]

definition pow2 :: "int \<Rightarrow> rat" where
  "pow2 k = (if 0 \<le> k then of_int (pow2i k) else 1 / of_int (pow2i (- k)))"

text \<open>The integer nearest \<open>num / den\<close> for \<open>den > 0\<close>, a tie going to the even one.\<close>

definition round_half_even :: "int \<Rightarrow> int \<Rightarrow> int" where
  "round_half_even num den =
     (let f = num div den; r = num mod den
      in if 2 * r < den then f
         else if den < 2 * r then f + 1
         else if even f then f else f + 1)"

text \<open>
  The binary64 value nearest the fraction \<open>p / q\<close> (\<open>q > 0\<close>): with \<open>e\<close> the binary
  exponent of \<open>|p| / q\<close>, the unit in the last place is \<open>2^k\<close> for
  \<open>k = max (e - 52) (-1074)\<close> (53 significant bits; subnormal numbers below
  \<open>2^-1022\<close>), and the result is the multiple of \<open>2^k\<close> nearest \<open>p / q\<close>.
\<close>

fun double_of_quotient :: "int \<times> int \<Rightarrow> rat" where
  "double_of_quotient (p, q) =
     (if p = 0 then 0
      else
        let a = \<bar>p\<bar>;
            e = (if q \<le> a then ilog2 (a div q) else - ceil_log2 ((q + a - 1) div a));
            k = max (e - 52) (- 1074);
            num = (if k < 0 then a * pow2i (- k) else a);
            den = (if k < 0 then q else q * pow2i k)
        in of_int (sgn p * round_half_even num den) * pow2 k)"

definition double :: "rat \<Rightarrow> rat" where
  "double x = double_of_quotient (quotient_of x)"

definition dadd :: "rat \<Rightarrow> rat \<Rightarrow> rat" where
  "dadd a b = double (a + b)"

definition dsub :: "rat \<Rightarrow> rat \<Rightarrow> rat" where
  "dsub a b = double (a - b)"

definition dmul :: "rat \<Rightarrow> rat \<Rightarrow> rat" where
  "dmul a b = double (a * b)"

definition ddiv :: "rat \<Rightarrow> rat \<Rightarrow> rat" where
  "ddiv a b = double (a / b)"

subsection \<open>parseInt and ToInt32\<close>

definition hex_digit_val :: "char \<Rightarrow> nat option" where
  "hex_digit_val c =
     (let n = (of_char c :: nat) in
      if 48 \<le> n \<and> n \<le> 57 then Some (n - 48)
      else if 97 \<le> n \<and> n \<le> 102 then Some (n - 87)
      else if 65 \<le> n \<and> n \<le> 70 then Some (n - 55)
      else None)"

definition is_hex_digit :: "char \<Rightarrow> bool" where
  "is_hex_digit c = (hex_digit_val c \<noteq> None)"

definition is_js_space :: "char \<Rightarrow> bool" where
  "is_js_space c = ((of_char c :: nat) \<in> {9, 10, 11, 12, 13, 32})"

fun hex_value :: "nat \<Rightarrow> string \<Rightarrow> nat" where
  "hex_value acc [] = acc"
| "hex_value acc (c # cs) =
     (case hex_digit_val c of
        None \<Rightarrow> acc
      | Some d \<Rightarrow> hex_value (16 * acc + d) cs)"

fun strip_sign :: "string \<Rightarrow> bool \<times> string" where
  "strip_sign [] = (False, [])"
| "strip_sign (c # cs) =
     (if c = CHR ''-'' then (True, cs)
      else if c = CHR ''+'' then (False, cs)
      else (False, c # cs))"

fun strip_0x :: "string \<Rightarrow> string" where
  "strip_0x (a # b # cs) =
     (if a = CHR ''0'' \<and> (b = CHR ''x'' \<or> b = CHR ''X'') then cs else a # b # cs)"
| "strip_0x cs = cs"

text \<open>
  \<open>parseInt(s, 16)\<close>: leading white space, an optional sign, an optional \<open>0x\<close>
  prefix, then the longest run of hexadecimal digits; \<open>NaN\<close> when that run is empty.
  The result is the number nearest the integer the digits denote, itself an integer.
\<close>

definition parseInt16 :: "string \<Rightarrow> int option" where
  "parseInt16 s =
     (case strip_sign (dropWhile is_js_space s) of
        (neg, t) \<Rightarrow>
          (let ds = takeWhile is_hex_digit (strip_0x t) in
           if ds = [] then None
           else Some (\<lfloor>double (of_int ((if neg then - 1 else 1) * int (hex_value 0 ds)))\<rfloor>)))"

definition ToInt32 :: "int option \<Rightarrow> int32" where
  "ToInt32 v = (case v of None \<Rightarrow> 0 | Some i \<Rightarrow> word_of_int i)"

section \<open>DuplicateDetector.calculateHammingDistance\<close>

text \<open>
  The bit-counting loop \<open>while (n) { count += n & 1; n >>= 1 }\<close>.  \<open>>>\<close> is the
  sign-propagating shift on a 32-bit integer, \<open>signed_drop_bit\<close>.  The loop may run
  forever, which is the value \<open>None\<close>.
\<close>

partial_function (option) count_set_bits :: "int32 \<Rightarrow> nat \<Rightarrow> nat option" where
  "count_set_bits n count =
     (if n \<noteq> 0 then count_set_bits (signed_drop_bit 1 n) (count + unat (n AND 1))
      else Some count)"

text \<open>
  A fingerprint argument is \<open>None\<close> for \<open>null\<close>/\<open>undefined\<close>; together with the
  empty string these are the falsy values that \<open>!hash\<close> catches.
\<close>

definition calculateHammingDistance :: "string option \<Rightarrow> string option \<Rightarrow> nat option" where
  "calculateHammingDistance hash1 hash2 =
     (case (hash1, hash2) of
        (Some h1, Some h2) \<Rightarrow>
          (if h1 = [] \<or> h2 = [] then Some 999
           else
             let int1 = parseInt16 h1;
                 int2 = parseInt16 h2;
                 xor = ToInt32 int1 XOR ToInt32 int2
             in count_set_bits xor 0)
      | _ \<Rightarrow> Some 999)"


section \<open>ImageProcessor.calculatePHash\<close>

definition hex_char :: "nat \<Rightarrow> char" where
  "hex_char d = ''0123456789abcdef'' ! d"

fun hex_digits :: "nat \<Rightarrow> string" where
  "hex_digits n = (if n < 16 then [hex_char n] else hex_digits (n div 16) @ [hex_char (n mod 16)])"

text \<open>\<open>Number.prototype.toString(16)\<close> on an integer value: a minus sign, then the magnitude.\<close>

definition toString16 :: "int \<Rightarrow> string" where
  "toString16 v = (if v < 0 then CHR ''-'' # hex_digits (nat (- v)) else hex_digits (nat v))"

text \<open>
  \<open>data\<close> is the raw greyscale buffer of the resized image, one byte per cell.  The sum
  of the bytes is exact, the division rounds; the mean is \<open>NaN\<close> for an empty buffer.  \<open>1 << i\<close> shifts a 32-bit integer by \<open>i mod 32\<close>, and
  \<open>|=\<close> keeps the accumulator a 32-bit integer.
\<close>

definition grid_avg :: "nat list \<Rightarrow> rat option" where
  "grid_avg data =
     (if data = [] then None else Some (ddiv (of_nat (sum_list data)) (of_nat (length data))))"

definition above_avg :: "nat list \<Rightarrow> nat \<Rightarrow> bool" where
  "above_avg data i =
     (case grid_avg data of None \<Rightarrow> False | Some avg \<Rightarrow> of_nat (data ! i) > avg)"

definition phash_step :: "nat list \<Rightarrow> int32 \<Rightarrow> nat \<Rightarrow> int32" where
  "phash_step data hash i =
     (if above_avg data i then hash OR push_bit (i mod 32) 1 else hash)"

definition phash_bits :: "nat list \<Rightarrow> int32" where
  "phash_bits data = foldl (phash_step data) 0 [0..<length data]"

definition calculatePHash :: "nat list \<Rightarrow> string" where
  "calculatePHash data = toString16 (sint (phash_bits data))"

text \<open>Two 8x8 grids: only cell 0 is bright in the first, only cell 32 in the second.\<close>

definition grid_cell0 :: "nat list" where
  "grid_cell0 = 255 # replicate 63 0"

definition grid_cell32 :: "nat list" where
  "grid_cell32 = replicate 32 0 @ 255 # replicate 31 0"

text \<open>Only cell 31 is bright: the sign bit of the 32-bit accumulator.\<close>

definition grid_cell31 :: "nat list" where
  "grid_cell31 = replicate 31 0 @ 255 # replicate 32 0"


section \<open>FusionService\<close>

subsection \<open>Strings and numbers\<close>

definition is_digit :: "char \<Rightarrow> bool" where
  "is_digit c = (48 \<le> (of_char c :: nat) \<and> (of_char c :: nat) \<le> 57)"

definition is_upper :: "char \<Rightarrow> bool" where
  "is_upper c = (65 \<le> (of_char c :: nat) \<and> (of_char c :: nat) \<le> 90)"

definition toUpperCase :: "char \<Rightarrow> char" where
  "toUpperCase c =
     (if 97 \<le> (of_char c :: nat) \<and> (of_char c :: nat) \<le> 122
      then char_of ((of_char c :: nat) - 32) else c)"

definition digit_char :: "nat \<Rightarrow> char" where
  "digit_char d = ''0123456789'' ! d"

fun show_nat :: "nat \<Rightarrow> string" where
  "show_nat n = (if n < 10 then [digit_char n] else show_nat (n div 10) @ [digit_char (n mod 10)])"

definition show_int :: "int \<Rightarrow> string" where
  "show_int i = (if i < 0 then CHR ''-'' # show_nat (nat (- i)) else show_nat (nat i))"

fun join :: "string \<Rightarrow> string list \<Rightarrow> string" where
  "join sep [] = []"
| "join sep [x] = x"
| "join sep (x # y # ys) = x @ sep @ join sep (y # ys)"

text \<open>\<open>Math.round\<close>: the nearest integer, a tie going up.\<close>

definition js_round :: "rat \<Rightarrow> int" where
  "js_round x = \<lfloor>x + 1 / 2\<rfloor>"

text \<open>\<open>s.replace(/X/g, '')\<close> and \<open>(s.match(/X/g) || []).length\<close>.\<close>

definition remove_X :: "string \<Rightarrow> string" where
  "remove_X s = filter (\<lambda>c. c \<noteq> CHR ''X'') s"

definition count_X :: "string \<Rightarrow> nat" where
  "count_X s = length (filter (\<lambda>c. c = CHR ''X'') s)"

text \<open>
  The configured \<open>patternRegex\<close> is represented by the predicate \<open>pattern.test\<close>
  computes.  The default is
  \<^verbatim>\<open>^(?:(?:[CDES][0-9]{8})|(?:[CDESN]{2}[0-9]{7}))$\<close>.
\<close>

definition default_pattern :: "string \<Rightarrow> bool" where
  "default_pattern s =
     (case s of
        a # b # rest \<Rightarrow>
          length rest = 7 \<and> list_all is_digit rest \<and>
          ((a \<in> set ''CDES'' \<and> is_digit b) \<or> (a \<in> set ''CDESN'' \<and> b \<in> set ''CDESN''))
      | _ \<Rightarrow> False)"

subsection \<open>Data\<close>

datatype status = SUCCESS | REVIEW_REQUIRED | BAD_IMAGE | ERROR | DUPLICATE_NUMBER

text \<open>
  What a recognizer returns.  A field that may be missing is an option; the overall
  \<open>confidence\<close> and the per-character confidences are numbers (binary64 values),
  possibly fractional.
\<close>

record ocr_result =
  passport_number :: "string option"
  per_char_conf :: "rat list option"
  damage_flags :: "bool list option"
  confidence :: "rat option"
  damage_detected :: bool

record ocr_results =
  vision :: "ocr_result option"
  tesseract :: "ocr_result option"
  template :: "ocr_result option"

record settings =
  confThreshold :: int
  patternRegex :: "string \<Rightarrow> bool"

text \<open>The optional second argument of \<open>fuseOCRResults\<close>, spread over the service's settings.\<close>

record settings_override =
  confThreshold_override :: "int option"
  patternRegex_override :: "(string \<Rightarrow> bool) option"

definition default_settings :: settings where
  "default_settings = \<lparr>confThreshold = 80, patternRegex = default_pattern\<rparr>"

definition no_override :: settings_override where
  "no_override = \<lparr>confThreshold_override = None, patternRegex_override = None\<rparr>"

definition effective_settings :: "settings \<Rightarrow> settings_override \<Rightarrow> settings" where
  "effective_settings this ov =
     \<lparr>confThreshold = (case confThreshold_override ov of None \<Rightarrow> confThreshold this | Some t \<Rightarrow> t),
      patternRegex = (case patternRegex_override ov of None \<Rightarrow> patternRegex this | Some p \<Rightarrow> p)\<rparr>"

record source =
  name :: string
  result :: ocr_result
  weight :: rat
  reliability :: rat

record candidate =
  char :: char
  cand_confidence :: "rat option"
  cand_source :: string
  damaged :: bool
  originalConf :: "rat option"
  positionValid :: bool

record consensus =
  cons_char :: char
  cons_confidence :: "int option"
  cons_source :: string
  cons_damaged :: bool
  cons_notes :: "string option"

text \<open>The object \<open>performVariableLengthFusion\<close> returns.\<close>

record fusion_result =
  fr_passport_number :: string
  fr_per_char_conf :: "int option list"
  fr_per_char_src :: "string list"
  fr_damage_flags :: "bool list"
  fr_confidence :: int
  fr_reasons :: string
  fr_fusion_method :: string
  fr_sources_used :: "string list"
  fr_valid_positions :: nat
  fr_detected_length :: nat

record quality_gates =
  pattern_valid :: bool
  confidence_passed :: bool
  completeness :: "rat option"
  damage_ratio :: "rat option"
  length_valid :: bool

text \<open>
  The final object: the fusion result with \<open>status\<close>, the joined \<open>reasons\<close> and
  \<open>quality_gates\<close>; \<open>createEmptyResult\<close> leaves \<open>detected_length\<close> and
  \<open>quality_gates\<close> out.
\<close>

record fused_result =
  out_passport_number :: string
  out_per_char_conf :: "int option list"
  out_per_char_src :: "string list"
  out_damage_flags :: "bool list"
  out_confidence :: int
  out_status :: status
  out_reasons :: string
  out_fusion_method :: string
  out_sources_used :: "string list"
  out_valid_positions :: nat
  out_detected_length :: "nat option"
  out_quality_gates :: "quality_gates option"

subsection \<open>assessSourceReliability\<close>

text \<open>\<open>/[^A-Z0-9X]/\<close>: a character outside the alphabet (\<open>X\<close> is an upper-case letter).\<close>

definition out_of_alphabet :: "char \<Rightarrow> bool" where
  "out_of_alphabet c = (\<not> is_upper c \<and> \<not> is_digit c)"

text \<open>
  \<open>damage_flags.some((damaged, idx) => damaged && per_char_conf[idx] > 80)\<close>; an index
  past the end of \<open>per_char_conf\<close> reads \<open>undefined\<close>, which is not greater than 80.
\<close>

definition suspiciousHighConf :: "bool list \<Rightarrow> rat list \<Rightarrow> bool" where
  "suspiciousHighConf df pc = list_ex (\<lambda>(d, c). d \<and> c > 80) (zip df pc)"

definition assessSourceReliability :: "settings \<Rightarrow> ocr_result \<Rightarrow> rat" where
  "assessSourceReliability this res =
     (let r0 = (1 :: rat);
          r3 = (case passport_number res of
                  None \<Rightarrow> r0
                | Some pn \<Rightarrow>
                    if pn = [] then r0
                    else
                      let r1 = (if list_ex out_of_alphabet pn then dmul r0 (double (3 / 10)) else r0);
                          r2 = (if length pn > 9 then dmul r1 (1 / 2) else r1);
                          cleanNumber = remove_X pn
                      in if \<not> patternRegex this cleanNumber \<and> length cleanNumber > 0
                         then dmul r2 (double (7 / 10)) else r2);
          r4 = (if damage_detected res then dmul r3 (double (11 / 10)) else r3);
          r5 = (case damage_flags res of
                  None \<Rightarrow> r4
                | Some df \<Rightarrow>
                    (case per_char_conf res of
                       None \<Rightarrow> r4
                     | Some pc \<Rightarrow>
                         if suspiciousHighConf df pc then dmul r4 (double (6 / 10)) else r4))
      in max (double (1 / 10)) (min 1 r5))"

subsection \<open>validateCharacterAtPosition, getMostCommonLength, determineActualLength\<close>

definition validateCharacterAtPosition :: "char \<Rightarrow> nat \<Rightarrow> string \<Rightarrow> bool" where
  "validateCharacterAtPosition c position fullString =
     (if position = 0 then c \<in> set ''CDESN''
      else if position = 1 then (c \<in> set ''CDESN'' \<or> is_digit c)
      else is_digit c)"

text \<open>
  \<open>counts\<close> is an object keyed by length, so \<open>Object.entries\<close> lists its keys in
  ascending numeric order; \<open>count_list lengths len\<close> is \<open>counts[len]\<close>.
\<close>

definition most_common_step :: "nat list \<Rightarrow> nat \<times> nat \<Rightarrow> nat \<Rightarrow> nat \<times> nat" where
  "most_common_step lengths acc len =
     (case acc of (maxCount, mostCommon) \<Rightarrow>
        if count_list lengths len > maxCount then (count_list lengths len, len)
        else (maxCount, mostCommon))"

definition getMostCommonLength :: "nat list \<Rightarrow> nat" where
  "getMostCommonLength lengths =
     (if lengths = [] then 9
      else snd (foldl (most_common_step lengths) (0, 9) (sort (remdups lengths))))"

fun last_non_empty :: "string list \<Rightarrow> nat \<Rightarrow> nat" where
  "last_non_empty chars 0 = 0"
| "last_non_empty chars (Suc i) = (if chars ! i = [] then last_non_empty chars i else Suc i)"

definition determineActualLength :: "string list \<Rightarrow> nat" where
  "determineActualLength chars = last_non_empty chars (length chars)"


subsection \<open>Collecting the candidates of one position\<close>

text \<open>
  The body of \<open>sources.forEach\<close> at position \<open>pos\<close>.  Reading \<open>per_char_conf\<close> past
  its end gives \<open>undefined\<close>, and the product is then \<open>NaN\<close>; reading \<open>damage_flags\<close>
  past its end gives \<open>undefined\<close>, which every later test treats as false.
\<close>

definition position_conf :: "ocr_result \<Rightarrow> nat \<Rightarrow> rat option" where
  "position_conf res pos =
     (case per_char_conf res of
        Some pc \<Rightarrow> if pos < length pc then Some (pc ! pos) else None
      | None \<Rightarrow> Some (case confidence res of None \<Rightarrow> 0 | Some c \<Rightarrow> c))"

definition position_damaged :: "ocr_result \<Rightarrow> nat \<Rightarrow> bool" where
  "position_damaged res pos =
     (case damage_flags res of
        Some df \<Rightarrow> pos < length df \<and> df ! pos
      | None \<Rightarrow> False)"

definition source_candidate :: "source \<Rightarrow> nat \<Rightarrow> candidate option" where
  "source_candidate s pos =
     (case passport_number (result s) of
        None \<Rightarrow> None
      | Some pn \<Rightarrow>
          if pos < length pn then
            let c = pn ! pos;
                conf = position_conf (result s) pos;
                dmg = position_damaged (result s) pos
            in if c = CHR ''X'' then None
               else
                 let isValidChar = validateCharacterAtPosition c pos pn
                 in Some \<lparr>char = toUpperCase c,
                          cand_confidence =
                            map_option
                              (\<lambda>v. dmul (dmul (dmul v (weight s)) (reliability s))
                                     (if isValidChar then 1 else double (3 / 10))) conf,
                          cand_source = name s,
                          damaged = dmg,
                          originalConf = conf,
                          positionValid = isValidChar\<rparr>
          else None)"

definition collect_candidates :: "source list \<Rightarrow> nat \<Rightarrow> candidate list" where
  "collect_candidates sources pos = List.map_filter (\<lambda>s. source_candidate s pos) sources"

subsection \<open>buildCharacterConsensus\<close>

text \<open>
  \<open>charGroups\<close> is an object keyed by character.  \<open>Object.entries\<close> lists the keys that
  are digits first, in ascending order, then the other keys in the order of their first
  insertion.
\<close>

definition first_occurrences :: "'a list \<Rightarrow> 'a list" where
  "first_occurrences xs = rev (remdups (rev xs))"

definition group_keys :: "candidate list \<Rightarrow> char list" where
  "group_keys candidates =
     (let ks = first_occurrences (map char candidates)
      in sort_key (of_char :: char \<Rightarrow> nat) (filter is_digit ks) @
         filter (\<lambda>k. \<not> is_digit k) ks)"

definition charGroups :: "candidate list \<Rightarrow> (char \<times> candidate list) list" where
  "charGroups candidates =
     map (\<lambda>k. (k, filter (\<lambda>c. char c = k) candidates)) (group_keys candidates)"

text \<open>
  \<open>group.reduce((sum, c) => sum + c.confidence, 0)\<close>: the additions run from the left,
  and one \<open>NaN\<close> makes the sum \<open>NaN\<close>.
\<close>

definition add_conf :: "rat option \<Rightarrow> rat option \<Rightarrow> rat option" where
  "add_conf acc c =
     (case acc of
        None \<Rightarrow> None
      | Some t \<Rightarrow> (case c of None \<Rightarrow> None | Some v \<Rightarrow> Some (dadd t v)))"

definition sum_conf :: "rat option list \<Rightarrow> rat option" where
  "sum_conf cs = foldl add_conf (Some 0) cs"

definition group_score :: "candidate list \<Rightarrow> rat option" where
  "group_score grp =
     (let totalWeight = sum_conf (map cand_confidence grp);
          avgConfidence = map_option (\<lambda>t. ddiv t (of_nat (length grp))) totalWeight;
          sourceBonus = (if length grp > 1 then 10 else 0);
          positionValidBonus = (if list_all positionValid grp then 5 else - 10)
      in map_option (\<lambda>a. dadd (dadd a sourceBonus) positionValidBonus) avgConfidence)"

text \<open>One round of the search for the best group; a \<open>NaN\<close> score is not greater than anything.\<close>

definition best_step ::
  "char \<times> rat \<times> candidate list \<Rightarrow> char \<times> candidate list \<Rightarrow> char \<times> rat \<times> candidate list" where
  "best_step acc entry =
     (case acc of (bestChar, bestScore, bestGroup) \<Rightarrow>
        (case entry of (c, grp) \<Rightarrow>
           (case group_score grp of
              None \<Rightarrow> (bestChar, bestScore, bestGroup)
            | Some score \<Rightarrow>
                if score > bestScore then (c, score, grp) else (bestChar, bestScore, bestGroup))))"

definition best_group :: "(char \<times> candidate list) list \<Rightarrow> char \<times> rat \<times> candidate list" where
  "best_group groups = foldl best_step (CHR ''X'', 0, []) groups"

definition conflictInfo :: "(char \<times> candidate list) list \<Rightarrow> string" where
  "conflictInfo groups =
     join '' vs '' (map (\<lambda>(c, grp). c # ''('' @ show_nat (length grp) @ '')'') groups)"

definition single_notes :: "candidate \<Rightarrow> string option" where
  "single_notes c =
     (if (case originalConf c of None \<Rightarrow> False | Some v \<Rightarrow> v < 50)
      then Some ''Low confidence single source''
      else if \<not> positionValid c then Some ''Invalid character for position''
      else None)"

definition buildCharacterConsensus :: "candidate list \<Rightarrow> nat \<Rightarrow> consensus" where
  "buildCharacterConsensus candidates position =
     (case candidates of
        [c] \<Rightarrow>
          \<lparr>cons_char = char c,
           cons_confidence = map_option js_round (cand_confidence c),
           cons_source = cand_source c,
           cons_damaged = damaged c,
           cons_notes = single_notes c\<rparr>
      | _ \<Rightarrow>
          (let groups = charGroups candidates in
           case best_group groups of (bestChar, bestScore, bestGroup) \<Rightarrow>
             let conflict = (length groups > 1);
                 notes1 = (if conflict then [''Character conflict: '' @ conflictInfo groups] else []);
                 c0 = js_round bestScore;
                 c1 = (if conflict then max 30 (c0 - 20) else c0);
                 anyDamaged = list_ex damaged bestGroup;
                 c2 = (if anyDamaged then max 20 (c1 - 15) else c1);
                 notes2 = (if anyDamaged then notes1 @ [''Damage detected in area''] else notes1);
                 anyInvalid = list_ex (\<lambda>c. \<not> positionValid c) bestGroup;
                 c3 = (if anyInvalid then max 10 (c2 - 25) else c2);
                 notes3 = (if anyInvalid
                           then notes2 @ [''Invalid character for passport format''] else notes2)
             in \<lparr>cons_char = bestChar,
                 cons_confidence = Some (min 100 c3),
                 cons_source = join ''+'' (map cand_source bestGroup),
                 cons_damaged = anyDamaged,
                 cons_notes = (if length notes3 > 0 then Some (join '', '' notes3) else None)\<rparr>))"

subsection \<open>calculateOverallConfidence\<close>

definition positive_conf :: "int option \<Rightarrow> bool" where
  "positive_conf c = (case c of None \<Rightarrow> False | Some v \<Rightarrow> v > 0)"

definition conf_value :: "int option \<Rightarrow> int" where
  "conf_value c = (case c of None \<Rightarrow> 0 | Some v \<Rightarrow> v)"

definition calculateOverallConfidence :: "int option list \<Rightarrow> bool list \<Rightarrow> int" where
  "calculateOverallConfidence perCharConf damageFlags =
     (let validConf = map conf_value (filter positive_conf perCharConf)
      in if length validConf = 0 then 0
         else
           let avgConf = ddiv (of_int (sum_list validConf)) (of_nat (length validConf));
               compl = ddiv (of_nat (length validConf)) (of_nat (length perCharConf));
               damageRatio = ddiv (of_nat (length (filter (\<lambda>d. d) damageFlags)))
                               (of_nat (length perCharConf));
               finalConf = dmul (dmul avgConf compl) (dsub 1 (dmul damageRatio (double (3 / 10))))
           in js_round (max 0 (min 100 finalConf)))"

subsection \<open>performVariableLengthFusion\<close>

text \<open>What one round of the position loop writes: character, confidence, source, damage flag, reason.\<close>

record position_result =
  pos_char :: string
  pos_conf :: "int option"
  pos_src :: string
  pos_damage :: bool
  pos_reason :: "string option"

definition fuse_position :: "source list \<Rightarrow> nat \<Rightarrow> nat \<Rightarrow> position_result" where
  "fuse_position sources mostCommonLength pos =
     (let candidates = collect_candidates sources pos
      in if length candidates = 0 then
           \<lparr>pos_char = (if pos < mostCommonLength then ''X'' else []),
            pos_conf = Some 0,
            pos_src = ''no_candidates'',
            pos_damage = (pos < mostCommonLength),
            pos_reason = (if pos < mostCommonLength
                          then Some (''Position '' @ show_nat (pos + 1) @
                                     '': No readable characters detected'')
                          else None)\<rparr>
         else
           let cons = buildCharacterConsensus candidates pos
           in \<lparr>pos_char = [cons_char cons],
               pos_conf = cons_confidence cons,
               pos_src = cons_source cons,
               pos_damage = cons_damaged cons,
               pos_reason = map_option (\<lambda>n. ''Position '' @ show_nat (pos + 1) @ '': '' @ n)
                              (cons_notes cons)\<rparr>)"

definition has_number :: "source \<Rightarrow> bool" where
  "has_number s = (case passport_number (result s) of None \<Rightarrow> False | Some pn \<Rightarrow> pn \<noteq> [])"

definition source_lengths :: "source list \<Rightarrow> nat list" where
  "source_lengths sources =
     map (\<lambda>s. length (remove_X (case passport_number (result s) of None \<Rightarrow> [] | Some pn \<Rightarrow> pn)))
         (filter has_number sources)"

definition is_readable :: "string \<Rightarrow> bool" where
  "is_readable c = (c \<noteq> ''X'' \<and> c \<noteq> [])"

definition performVariableLengthFusion :: "source list \<Rightarrow> settings \<Rightarrow> fusion_result" where
  "performVariableLengthFusion sources st =
     (let mostCommonLength = getMostCommonLength (source_lengths sources);
          maxLength = max 9 mostCommonLength;
          rows = map (fuse_position sources mostCommonLength) [0..<maxLength];
          finalChars = map pos_char rows;
          finalConf = map pos_conf rows;
          finalSrc = map pos_src rows;
          damageFlags = map pos_damage rows;
          reasons = List.map_filter pos_reason rows;
          actualLength = determineActualLength finalChars
      in \<lparr>fr_passport_number = concat (take actualLength finalChars),
          fr_per_char_conf = take actualLength finalConf,
          fr_per_char_src = take actualLength finalSrc,
          fr_damage_flags = take actualLength damageFlags,
          fr_confidence = calculateOverallConfidence (take actualLength finalConf)
                            (take actualLength damageFlags),
          fr_reasons = join ''; '' reasons,
          fr_fusion_method = ''variable_length_consensus'',
          fr_sources_used = map name sources,
          fr_valid_positions = length (filter is_readable (take actualLength finalChars)),
          fr_detected_length = actualLength\<rparr>)"

subsection \<open>applyQualityGates, createEmptyResult, fuseOCRResults\<close>

text \<open>
  Each gate overwrites \<open>status\<close> and appends to \<open>reasons\<close>, in the order of the source:
  pattern, confidence threshold, missing characters, length, damage.  A quotient by a
  zero length is not a finite number and is \<open>None\<close>.
\<close>

definition ratio :: "nat \<Rightarrow> nat \<Rightarrow> rat option" where
  "ratio a b = (if b = 0 then None else Some (ddiv (of_nat a) (of_nat b)))"

definition applyQualityGates :: "fusion_result \<Rightarrow> settings \<Rightarrow> fused_result" where
  "applyQualityGates res st =
     (let reasons0 = (if fr_reasons res = [] then [] else [fr_reasons res]);
          status0 = SUCCESS;
          number = fr_passport_number res;
          cleanNumber = remove_X number;
          patternFails = (\<not> patternRegex st cleanNumber \<and> length cleanNumber > 0);
          status1 = (if patternFails then REVIEW_REQUIRED else status0);
          reasons1 = (if patternFails
                      then reasons0 @ [''Pattern validation failed - does not match expected passport format'']
                      else reasons0);
          lowConf = (fr_confidence res < confThreshold st);
          status2 = (if lowConf then REVIEW_REQUIRED else status1);
          reasons2 = (if lowConf
                      then reasons1 @ [''Confidence '' @ show_int (fr_confidence res) @
                                       ''% below threshold '' @ show_int (confThreshold st) @ ''%'']
                      else reasons1);
          missingCount = count_X number;
          status3 = (if missingCount > 0
                     then (if missingCount \<ge> 5 then BAD_IMAGE else REVIEW_REQUIRED)
                     else status2);
          reasons3 = (if missingCount > 0
                      then (if missingCount \<ge> 5
                            then reasons2 @ [''Too many unreadable characters ('' @ show_nat missingCount @
                                             ''/'' @ show_nat (length number) @ '')'']
                            else reasons2 @ [show_nat missingCount @ '' characters unreadable due to damage''])
                      else reasons2);
          badLength = (length number < 7 \<or> length number > 9);
          status4 = (if badLength then REVIEW_REQUIRED else status3);
          reasons4 = (if badLength
                      then reasons3 @ [''Invalid passport number length: '' @ show_nat (length number) @
                                       '' characters'']
                      else reasons3);
          damageCount = length (filter (\<lambda>d. d) (fr_damage_flags res));
          status5 = (if damageCount > 3 then REVIEW_REQUIRED else status4);
          reasons5 = (if damageCount > 3 then reasons4 @ [''Extensive damage detected''] else reasons4)
      in \<lparr>out_passport_number = number,
          out_per_char_conf = fr_per_char_conf res,
          out_per_char_src = fr_per_char_src res,
          out_damage_flags = fr_damage_flags res,
          out_confidence = fr_confidence res,
          out_status = status5,
          out_reasons = join ''; '' reasons5,
          out_fusion_method = fr_fusion_method res,
          out_sources_used = fr_sources_used res,
          out_valid_positions = fr_valid_positions res,
          out_detected_length = Some (fr_detected_length res),
          out_quality_gates =
            Some \<lparr>pattern_valid = patternRegex st cleanNumber,
                  confidence_passed = (fr_confidence res \<ge> confThreshold st),
                  completeness = ratio (length number - missingCount) (length number),
                  damage_ratio = ratio damageCount (length number),
                  length_valid = (length number \<ge> 7 \<and> length number \<le> 9)\<rparr>\<rparr>)"

definition createEmptyResult :: "string \<Rightarrow> fused_result" where
  "createEmptyResult reason =
     \<lparr>out_passport_number = ''XXXXXXXXX'',
      out_per_char_conf = replicate 9 (Some 0),
      out_per_char_src = replicate 9 ''no_source'',
      out_damage_flags = replicate 9 True,
      out_confidence = 0,
      out_status = ERROR,
      out_reasons = reason,
      out_fusion_method = ''no_fusion'',
      out_sources_used = [],
      out_valid_positions = 0,
      out_detected_length = None,
      out_quality_gates = None\<rparr>"

definition make_source :: "settings \<Rightarrow> string \<Rightarrow> rat \<Rightarrow> ocr_result option \<Rightarrow> source list" where
  "make_source this nm w r =
     (case r of
        None \<Rightarrow> []
      | Some res \<Rightarrow>
          [\<lparr>name = nm, result = res, weight = w, reliability = assessSourceReliability this res\<rparr>])"

definition collect_sources :: "settings \<Rightarrow> ocr_results \<Rightarrow> source list" where
  "collect_sources this ocrResults =
     make_source this ''vision'' 1 (vision ocrResults) @
     make_source this ''tesseract'' (double (7 / 10)) (tesseract ocrResults) @
     make_source this ''template'' (1 / 2) (template ocrResults)"

definition fuseOCRResults :: "settings \<Rightarrow> ocr_results \<Rightarrow> settings_override \<Rightarrow> fused_result" where
  "fuseOCRResults this ocrResults ov =
     (let effectiveSettings = effective_settings this ov;
          sources = collect_sources this ocrResults
      in if length sources = 0 then createEmptyResult ''No OCR sources available''
         else applyQualityGates (performVariableLengthFusion sources effectiveSettings)
                effectiveSettings)"


section \<open>The persistent store\<close>

text \<open>
  The columns of \<open>images\<close>, \<open>results\<close> and \<open>duplicates\<close> that the modelled queries
  read or write.  Row ids and creation timestamps are left out.  A table is the list of
  its rows in insertion order.
\<close>

record image_row =
  img_id :: string
  img_job_id :: string
  phash :: "string option"
  upload_ts :: nat

record result_row =
  res_image_id :: string
  res_job_id :: string
  version :: nat
  res_passport_number :: "string option"
  res_status :: status

record duplicate_row =
  image_id_a :: string
  image_id_b :: string
  hamming :: nat
  text_distance :: rat
  confirmed :: bool

record database =
  images :: "image_row list"
  results :: "result_row list"
  duplicates :: "duplicate_row list"

text \<open>
  \<open>INSERT OR IGNORE INTO duplicates (image_id_a, image_id_b, hamming, text_distance)\<close>
  under \<open>UNIQUE(image_id_a, image_id_b)\<close>; \<open>confirmed\<close> takes its default, \<open>FALSE\<close>.
\<close>

definition same_ordered_pair :: "string \<Rightarrow> string \<Rightarrow> duplicate_row \<Rightarrow> bool" where
  "same_ordered_pair a b d = (image_id_a d = a \<and> image_id_b d = b)"

definition insert_or_ignore_duplicate ::
  "string \<Rightarrow> string \<Rightarrow> nat \<Rightarrow> rat \<Rightarrow> duplicate_row list \<Rightarrow> duplicate_row list" where
  "insert_or_ignore_duplicate a b h t ds =
     (if list_ex (same_ordered_pair a b) ds then ds
      else ds @ [\<lparr>image_id_a = a, image_id_b = b, hamming = h, text_distance = t,
                   confirmed = False\<rparr>])"

section \<open>DuplicateDetector.findDuplicates\<close>

record detector_settings =
  dupPhashThreshold :: nat
  textDistanceThreshold :: rat
  autoConfirmDuplicates :: bool

definition default_detector_settings :: detector_settings where
  "default_detector_settings =
     \<lparr>dupPhashThreshold = 10, textDistanceThreshold = double (8 / 10),
      autoConfirmDuplicates = False\<rparr>"

text \<open>\<open>SELECT MAX(version) FROM results WHERE image_id = ?\<close>; \<open>NULL\<close> without rows.\<close>

definition max_version :: "result_row list \<Rightarrow> string \<Rightarrow> nat option" where
  "max_version rs i =
     (case map version (filter (\<lambda>r. res_image_id r = i) rs) of
        [] \<Rightarrow> None
      | v # vs \<Rightarrow> Some (foldl max v vs))"

text \<open>
  The join of \<open>findDuplicates\<close>: latest results of other images that carry the same
  passport number.
\<close>

definition matches_query :: "database \<Rightarrow> string \<Rightarrow> string \<Rightarrow> image_row \<Rightarrow> result_row \<Rightarrow> bool" where
  "matches_query db passportNumber imageId i r =
     (img_id i = res_image_id r \<and>
      res_passport_number r = Some passportNumber \<and>
      img_id i \<noteq> imageId \<and>
      Some (version r) = max_version (results db) (img_id i))"

definition duplicate_query ::
  "database \<Rightarrow> string \<Rightarrow> string \<Rightarrow> (image_row \<times> result_row) list" where
  "duplicate_query db passportNumber imageId =
     concat (map (\<lambda>i. map (\<lambda>r. (i, r))
                        (filter (matches_query db passportNumber imageId i) (results db)))
                 (images db))"

text \<open>\<open>SELECT phash FROM images WHERE id = ?\<close>, then \<open>row?.phash\<close>.\<close>

definition getImagePHash :: "database \<Rightarrow> string \<Rightarrow> string option" where
  "getImagePHash db imageId =
     (case filter (\<lambda>i. img_id i = imageId) (images db) of
        [] \<Rightarrow> None
      | i # _ \<Rightarrow> phash i)"

record duplicate_hit =
  hit_imageId :: string
  hit_hammingDistance :: nat
  hit_passportNumber :: "string option"

text \<open>
  The loop over the rows of the query.  It returns the store and the list \<open>duplicates\<close>;
  it does not return when one of the distance computations does not.
\<close>

fun find_loop ::
  "detector_settings \<Rightarrow> string \<Rightarrow> (image_row \<times> result_row) list \<Rightarrow> database \<Rightarrow>
   duplicate_hit list \<Rightarrow> (database \<times> duplicate_hit list) option" where
  "find_loop st imageId [] db dups = Some (db, dups)"
| "find_loop st imageId ((i, r) # rows) db dups =
     (case calculateHammingDistance (getImagePHash db imageId) (phash i) of
        None \<Rightarrow> None
      | Some hammingDistance \<Rightarrow>
          if hammingDistance \<le> dupPhashThreshold st then
            find_loop st imageId rows
              (db\<lparr>duplicates :=
                    insert_or_ignore_duplicate imageId (img_id i) hammingDistance 0 (duplicates db)\<rparr>)
              (dups @ [\<lparr>hit_imageId = img_id i, hit_hammingDistance = hammingDistance,
                         hit_passportNumber = res_passport_number r\<rparr>])
          else find_loop st imageId rows db dups)"

definition findDuplicates ::
  "detector_settings \<Rightarrow> database \<Rightarrow> string \<Rightarrow> string \<Rightarrow> (database \<times> duplicate_hit list) option" where
  "findDuplicates st db imageId passportNumber =
     find_loop st imageId (duplicate_query db passportNumber imageId) db []"

section \<open>ProcessingPipeline (queue and worker-pool variant)\<close>

text \<open>
  A queued task: the image and its job (\<open>reprocessImage\<close> queues a task with no job).
  The payload later stages add to a task is left out.
\<close>

record task =
  task_imageId :: string
  task_jobId :: "string option"

record pipeline =
  q_preprocess :: "task list"
  q_ocr :: "task list"
  q_fusion :: "task list"
  q_post :: "task list"
  runningJobs :: "string set"
  pausedJobs :: "string set"

definition new_pipeline :: pipeline where
  "new_pipeline =
     \<lparr>q_preprocess = [], q_ocr = [], q_fusion = [], q_post = [],
      runningJobs = {}, pausedJobs = {}\<rparr>"

text \<open>
  \<open>startJob\<close>: mark the job running, then push one task for every row of
  \<open>SELECT id FROM images WHERE job_id = ?\<close>.
\<close>

definition startJob :: "pipeline \<Rightarrow> database \<Rightarrow> string \<Rightarrow> pipeline" where
  "startJob pl db jobId =
     pl\<lparr>runningJobs := insert jobId (runningJobs pl),
        pausedJobs := pausedJobs pl - {jobId},
        q_preprocess :=
          q_preprocess pl @
          map (\<lambda>row. \<lparr>task_imageId = img_id row, task_jobId = Some jobId\<rparr>)
              (filter (\<lambda>i. img_job_id i = jobId) (images db))\<rparr>"

definition pauseJob :: "pipeline \<Rightarrow> string \<Rightarrow> pipeline" where
  "pauseJob pl jobId = pl\<lparr>pausedJobs := insert jobId (pausedJobs pl)\<rparr>"

definition other_job :: "string \<Rightarrow> task \<Rightarrow> bool" where
  "other_job jobId t = (task_jobId t \<noteq> Some jobId)"

definition stopJob :: "pipeline \<Rightarrow> string \<Rightarrow> pipeline" where
  "stopJob pl jobId =
     pl\<lparr>runningJobs := runningJobs pl - {jobId},
        pausedJobs := pausedJobs pl - {jobId},
        q_preprocess := filter (other_job jobId) (q_preprocess pl),
        q_ocr := filter (other_job jobId) (q_ocr pl),
        q_fusion := filter (other_job jobId) (q_fusion pl),
        q_post := filter (other_job jobId) (q_post pl)\<rparr>"

text \<open>
  \<open>postProcess\<close>: the status it writes to the latest result of the image, with the
  store after the duplicate search.
\<close>

definition set_latest_status :: "string \<Rightarrow> status \<Rightarrow> result_row list \<Rightarrow> result_row list" where
  "set_latest_status imageId s rs =
     map (\<lambda>r. if res_image_id r = imageId \<and> Some (version r) = max_version rs imageId
               then r\<lparr>res_status := s\<rparr> else r) rs"

definition postProcess ::
  "detector_settings \<Rightarrow> database \<Rightarrow> string \<Rightarrow> fused_result \<Rightarrow> (database \<times> status) option" where
  "postProcess st db imageId res =
     (if out_status res = SUCCESS then
        (case findDuplicates st db imageId (out_passport_number res) of
           None \<Rightarrow> None
         | Some (db', dups) \<Rightarrow>
             let s = (if length dups > 0 then DUPLICATE_NUMBER else SUCCESS)
             in Some (db'\<lparr>results := set_latest_status imageId s (results db')\<rparr>, s))
      else Some (db\<lparr>results := set_latest_status imageId (out_status res) (results db)\<rparr>,
                 out_status res))"

section \<open>ProcessingPipeline (direct-loop variant): getPendingImages\<close>

text \<open>
  \<open>SELECT i.* FROM images i LEFT JOIN results r ON i.id = r.image_id
  WHERE i.job_id = ? AND r.image_id IS NULL ORDER BY i.upload_ts ASC\<close>.
\<close>

definition has_result :: "database \<Rightarrow> image_row \<Rightarrow> bool" where
  "has_result db i = list_ex (\<lambda>r. res_image_id r = img_id i) (results db)"

definition getPendingImages :: "database \<Rightarrow> string \<Rightarrow> image_row list" where
  "getPendingImages db jobId =
     sort_key upload_ts
       (filter (\<lambda>i. img_job_id i = jobId \<and> \<not> has_result db i) (images db))"


section \<open>The grouping rule in the words of the specification\<close>

text \<open>
  Section 4.3, step 3: group same-character candidates; score each group as mean weighted
  confidence + (agreement bonus if at least 2 sources) + (validity bonus/penalty); the
  top-scoring character wins.  A report is a character, its weighted confidence and its
  grammar validity; the bonuses are the constants of the code (10, and 5 or -10).  The
  formula is evaluated in binary64 arithmetic, the mean summing in the order of the reports.
\<close>

type_synonym report = "char \<times> rat \<times> bool"

definition spec_group :: "report list \<Rightarrow> char \<Rightarrow> report list" where
  "spec_group reports c = filter (\<lambda>r. fst r = c) reports"

definition spec_mean :: "rat list \<Rightarrow> rat" where
  "spec_mean vs = ddiv (foldl dadd 0 vs) (of_nat (length vs))"

definition spec_score :: "report list \<Rightarrow> char \<Rightarrow> rat" where
  "spec_score reports c =
     (let grp = spec_group reports c
      in dadd (dadd (spec_mean (map (\<lambda>r. fst (snd r)) grp))
                    (if length grp \<ge> 2 then 10 else 0))
              (if list_all (\<lambda>r. snd (snd r)) grp then 5 else - 10))"

definition spec_top_scoring :: "report list \<Rightarrow> char \<Rightarrow> bool" where
  "spec_top_scoring reports c =
     (list_ex (\<lambda>r. fst r = c) reports \<and>
      list_all (\<lambda>r. fst r = c \<or> spec_score reports (fst r) < spec_score reports c) reports)"

text \<open>The weighted reports of a position, read off the candidates the code collects.\<close>

definition report_of :: "candidate \<Rightarrow> report" where
  "report_of c =
     (char c, (case cand_confidence c of None \<Rightarrow> 0 | Some v \<Rightarrow> v), positionValid c)"

definition weighted_reports :: "settings \<Rightarrow> ocr_results \<Rightarrow> nat \<Rightarrow> report list" where
  "weighted_reports this ocrResults pos =
     map report_of (collect_candidates (collect_sources this ocrResults) pos)"

text \<open>
  What the recognizers themselves report at a position, placeholders included: the
  character and its raw confidence.
\<close>

definition raw_report :: "ocr_result option \<Rightarrow> nat \<Rightarrow> (char \<times> rat) list" where
  "raw_report r pos =
     (case r of
        None \<Rightarrow> []
      | Some res \<Rightarrow>
          (case passport_number res of
             None \<Rightarrow> []
           | Some pn \<Rightarrow>
               if pos < length pn
               then [(pn ! pos, (case position_conf res pos of None \<Rightarrow> 0 | Some v \<Rightarrow> v))]
               else []))"

definition raw_reports :: "ocr_results \<Rightarrow> nat \<Rightarrow> (char \<times> rat) list" where
  "raw_reports ocrResults pos =
     raw_report (vision ocrResults) pos @ raw_report (tesseract ocrResults) pos @
     raw_report (template ocrResults) pos"

definition highest_raw_confidence :: "(char \<times> rat) list \<Rightarrow> char \<Rightarrow> bool" where
  "highest_raw_confidence reports c =
     list_ex (\<lambda>r. fst r = c \<and> list_all (\<lambda>q. snd q \<le> snd r) reports) reports"

text \<open>\<open>reasons\<close> mentions a phrase: the phrase occurs in it, letter case aside.\<close>

fun is_prefix :: "string \<Rightarrow> string \<Rightarrow> bool" where
  "is_prefix [] ys = True"
| "is_prefix (x # xs) [] = False"
| "is_prefix (x # xs) (y # ys) = (x = y \<and> is_prefix xs ys)"

fun occurs_in :: "string \<Rightarrow> string \<Rightarrow> bool" where
  "occurs_in p [] = is_prefix p []"
| "occurs_in p (y # ys) = (is_prefix p (y # ys) \<or> occurs_in p ys)"

definition mentions :: "string \<Rightarrow> string \<Rightarrow> bool" where
  "mentions text phrase = occurs_in (map toUpperCase phrase) (map toUpperCase text)"

section \<open>Concrete inputs\<close>

definition plain_reading :: "string \<Rightarrow> rat \<Rightarrow> ocr_result" where
  "plain_reading s c =
     \<lparr>passport_number = Some s, per_char_conf = None, damage_flags = None,
      confidence = Some c, damage_detected = False\<rparr>"

definition only_vision :: "ocr_result \<Rightarrow> ocr_results" where
  "only_vision r = \<lparr>vision = Some r, tesseract = None, template = None\<rparr>"

definition no_sources :: ocr_results where
  "no_sources = \<lparr>vision = None, tesseract = None, template = None\<rparr>"

text \<open>A ten-character reading whose first five positions are unreadable.\<close>

definition leading_placeholders :: ocr_results where
  "leading_placeholders = only_vision (plain_reading ''XXXXX67890'' 90)"

text \<open>An eleven-character reading.\<close>

definition eleven_characters :: ocr_results where
  "eleven_characters = only_vision (plain_reading ''C1234567890'' 90)"

text \<open>A nine-character reading with five unreadable positions in the middle.\<close>

definition interior_gap :: ocr_results where
  "interior_gap = only_vision (plain_reading ''CXXXXX678'' 90)"

text \<open>
  Scenario A: \<open>C1234567X\<close> at confidence 90 with position 8 flagged damaged (vision,
  weight 1.0), \<open>C12345679\<close> at 60 (tesseract, weight 0.7), \<open>C12345678\<close> at 55
  (template, weight 0.5).
\<close>

definition scenario_A :: ocr_results where
  "scenario_A =
     \<lparr>vision = Some \<lparr>passport_number = Some ''C1234567X'',
                      per_char_conf = Some (replicate 9 90),
                      damage_flags = Some (replicate 8 False @ [True]),
                      confidence = Some 90, damage_detected = True\<rparr>,
      tesseract = Some \<lparr>passport_number = Some ''C12345679'',
                         per_char_conf = Some (replicate 9 60),
                         damage_flags = None,
                         confidence = Some 60, damage_detected = False\<rparr>,
      template = Some \<lparr>passport_number = Some ''C12345678'',
                        per_char_conf = Some (replicate 9 55),
                        damage_flags = None,
                        confidence = Some 55, damage_detected = False\<rparr>\<rparr>"

text \<open>
  Scenario A with the template's confidence raised to 80: at position 8 the readable
  report with the highest raw confidence is then \<open>8\<close>.
\<close>

definition scenario_A_variant :: ocr_results where
  "scenario_A_variant =
     scenario_A\<lparr>template := Some \<lparr>passport_number = Some ''C12345678'',
                                     per_char_conf = Some (replicate 9 80),
                                     damage_flags = None,
                                     confidence = Some 80, damage_detected = False\<rparr>\<rparr>"

definition readable_reports :: "(char \<times> rat) list \<Rightarrow> (char \<times> rat) list" where
  "readable_reports reports = filter (\<lambda>r. fst r \<noteq> CHR ''X'') reports"

text \<open>
  Scenario C: image \<open>A\<close> is freshly fused, image \<open>B\<close> is a prior one; both results are
  \<open>SUCCESS\<close> with the same number, and the fingerprints \<open>7\<close> and \<open>0\<close> differ in 3 bits.
\<close>

definition scenario_C_db :: database where
  "scenario_C_db =
     \<lparr>images = [\<lparr>img_id = ''B'', img_job_id = ''J'', phash = Some ''0'', upload_ts = 1\<rparr>,
                \<lparr>img_id = ''A'', img_job_id = ''J'', phash = Some ''7'', upload_ts = 2\<rparr>],
      results = [\<lparr>res_image_id = ''B'', res_job_id = ''J'', version = 1,
                  res_passport_number = Some ''C12345678'', res_status = SUCCESS\<rparr>,
                 \<lparr>res_image_id = ''A'', res_job_id = ''J'', version = 1,
                  res_passport_number = Some ''C12345678'', res_status = SUCCESS\<rparr>],
      duplicates = []\<rparr>"

definition auto_confirm_settings :: detector_settings where
  "auto_confirm_settings =
     \<lparr>dupPhashThreshold = 10, textDistanceThreshold = double (8 / 10),
      autoConfirmDuplicates = True\<rparr>"

definition ordered_pair :: "duplicate_row \<Rightarrow> string \<times> string" where
  "ordered_pair d = (image_id_a d, image_id_b d)"

definition link :: "string \<Rightarrow> string \<Rightarrow> nat \<Rightarrow> duplicate_row" where
  "link a b h =
     \<lparr>image_id_a = a, image_id_b = b, hamming = h, text_distance = 0, confirmed = False\<rparr>"

text \<open>A job with two images; the first already has a result.\<close>

definition job_db :: database where
  "job_db =
     \<lparr>images = [\<lparr>img_id = ''I1'', img_job_id = ''J'', phash = None, upload_ts = 1\<rparr>,
                \<lparr>img_id = ''I2'', img_job_id = ''J'', phash = None, upload_ts = 2\<rparr>],
      results = [\<lparr>res_image_id = ''I1'', res_job_id = ''J'', version = 1,
                  res_passport_number = Some ''C12345678'', res_status = SUCCESS\<rparr>],
      duplicates = []\<rparr>"

definition job_task :: "string \<Rightarrow> task" where
  "job_task i = \<lparr>task_imageId = i, task_jobId = Some ''J''\<rparr>"


section \<open>Binary64 rounding on known values\<close>

text \<open>
  \<open>0.1 + 0.2\<close> is \<open>0.30000000000000004\<close>, \<open>90 * 0.35\<close> is \<open>31.499999999999996\<close>,
  \<open>0.7 * 1.1 * 0.6\<close> is \<open>0.46199999999999997\<close>, \<open>60 * 0.7\<close> is \<open>42\<close>, and
  \<open>2^53 + 1\<close> is not a binary64 value.
\<close>

lemma double_examples:
  "double (double (1 / 10) + double (2 / 10)) = 1351079888211149 / 4503599627370496"
  "double (90 * double (35 / 100)) = 8866461766385663 / 281474976710656"
  "double (double (double (7 / 10) * double (11 / 10)) * double (6 / 10))
     = 2080663027845169 / 4503599627370496"
  "double (60 * double (7 / 10)) = 42"
  "double 9007199254740993 = 9007199254740992"
  by code_simp+

lemma double_small_integers:
  "double 0 = 0" "double 1 = 1" "double 3 = 3" "double 7 = 7"
  "double 2147483648 = 2147483648" "double (- 2147483648) = - 2147483648"
  by code_simp+

lemma double_255_64: "double (255 / 64) = 255 / 64"
  by code_simp

section \<open>The bit-counting loop\<close>

lemma count_set_bits_returns_only_nonnegative:
  assumes "count_set_bits n c = Some r"
  shows "\<not> bit n 31"
proof (rule count_set_bits.raw_induct [where P = "\<lambda>n c r. \<not> bit n (31::nat)", OF _ assms])
  fix f :: "int32 \<Rightarrow> nat \<Rightarrow> nat option" and m :: int32 and k j :: nat
  assume IH: "\<And>n c r. f n c = Some r \<Longrightarrow> \<not> bit n 31"
    and step: "(if m \<noteq> 0 then f (signed_drop_bit 1 m) (k + unat (m AND 1)) else Some k) = Some j"
  show "\<not> bit m 31"
  proof (cases "m = 0")
    case True
    then show ?thesis by simp
  next
    case False
    with step have "f (signed_drop_bit 1 m) (k + unat (m AND 1)) = Some j" by simp
    from IH [OF this] show ?thesis by (simp add: bit_signed_drop_bit_iff)
  qed
qed

lemma count_set_bits_negative_diverges: "bit n 31 \<Longrightarrow> count_set_bits n c = None"
  using count_set_bits_returns_only_nonnegative [of n c] by (cases "count_set_bits n c") auto

lemma signed_shift_of_nonnegative:
  fixes n :: int32
  assumes "\<not> bit n 31"
  shows "signed_drop_bit 1 n = drop_bit 1 n"
proof (rule bit_word_eqI)
  fix i :: nat
  assume "i < LENGTH(32)"
  then have "i = 31 \<or> i < 31" by auto
  then show "bit (signed_drop_bit 1 n) i = bit (drop_bit 1 n) i"
    using assms by (auto simp: bit_simps dest: bit_imp_le_length)
qed

lemma count_set_bits_nonnegative_returns:
  "\<not> bit n 31 \<Longrightarrow> \<exists>r. count_set_bits n c = Some r"
proof (induction "unat n" arbitrary: n c rule: less_induct)
  case less
  show ?case
  proof (cases "n = 0")
    case True
    then show ?thesis by (simp add: count_set_bits.simps)
  next
    case False
    have lt: "unat (drop_bit 1 n) < unat n"
    proof -
      from False have "0 < unat n" by (simp add: unat_gt_0)
      then have "unat n div 2 < unat n" by simp
      then show ?thesis unfolding unat_drop_bit_eq by (simp add: drop_bit_eq_div)
    qed
    have nb: "\<not> bit (signed_drop_bit 1 n) 31"
      using less.prems by (simp add: bit_signed_drop_bit_iff)
    from less.hyps [of "signed_drop_bit 1 n" "c + unat (n AND 1)"] lt nb
      signed_shift_of_nonnegative [OF less.prems]
    obtain r where "count_set_bits (signed_drop_bit 1 n) (c + unat (n AND 1)) = Some r"
      by auto
    then show ?thesis using False by (subst count_set_bits.simps) simp
  qed
qed

lemma hamming_null_or_empty:
  "calculateHammingDistance None h = Some 999"
  "calculateHammingDistance h None = Some 999"
  "calculateHammingDistance (Some []) h = Some 999"
  "calculateHammingDistance h (Some []) = Some 999"
  by (auto simp: calculateHammingDistance_def split: option.splits)

lemma hamming_7_0: "calculateHammingDistance (Some ''7'') (Some ''0'') = Some 3"
  by (simp add: calculateHammingDistance_def parseInt16_def is_js_space_def is_hex_digit_def
      hex_digit_val_def ToInt32_def double_small_integers count_set_bits.simps [of 7]
      count_set_bits.simps [of 3] count_set_bits.simps [of 1] count_set_bits.simps [of 0])

lemma hamming_0_7: "calculateHammingDistance (Some ''0'') (Some ''7'') = Some 3"
  by (simp add: calculateHammingDistance_def parseInt16_def is_js_space_def is_hex_digit_def
      hex_digit_val_def ToInt32_def double_small_integers count_set_bits.simps [of 7]
      count_set_bits.simps [of 3] count_set_bits.simps [of 1] count_set_bits.simps [of 0])

section \<open>The fingerprint\<close>

lemma phash_step_bit:
  "bit (phash_step data h i) k \<longleftrightarrow> bit h k \<or> (above_avg data i \<and> k = i mod 32)"
  by (auto simp: phash_step_def bit_simps)

lemma phash_fold_bit:
  "bit (foldl (phash_step data) h [0..<n]) k \<longleftrightarrow>
     bit h k \<or> (\<exists>i<n. i mod 32 = k \<and> above_avg data i)"
proof (induction n)
  case 0
  then show ?case by simp
next
  case (Suc n)
  have "bit (foldl (phash_step data) h [0..<Suc n]) k \<longleftrightarrow>
        bit (foldl (phash_step data) h [0..<n]) k \<or> (above_avg data n \<and> k = n mod 32)"
    by (simp only: upt_Suc_append [OF le0] foldl_append foldl.simps phash_step_bit)
  also have "\<dots> \<longleftrightarrow> bit h k \<or> (\<exists>i<Suc n. i mod 32 = k \<and> above_avg data i)"
    unfolding Suc.IH by (auto simp: less_Suc_eq)
  finally show ?case .
qed

text \<open>
  Bit \<open>k\<close> of the fingerprint is set exactly when some cell whose index is \<open>k\<close> modulo 32
  lies above the mean: on an 8x8 grid, cell \<open>k\<close> or cell \<open>k + 32\<close>.
\<close>

lemma phash_bits_bit:
  "bit (phash_bits data) k \<longleftrightarrow> (\<exists>i<length data. i mod 32 = k \<and> above_avg data i)"
  by (simp add: phash_bits_def phash_fold_bit)

lemma phash_grid_cell0: "calculatePHash grid_cell0 = ''1''"
  by (simp add: calculatePHash_def phash_bits_def grid_cell0_def upt_rec phash_step_def
      above_avg_def grid_avg_def ddiv_def double_255_64 toString16_def hex_char_def nth_Cons' sum_list_replicate)

lemma phash_grid_cell32: "calculatePHash grid_cell32 = ''1''"
  by (simp add: calculatePHash_def phash_bits_def grid_cell32_def upt_rec phash_step_def
      above_avg_def grid_avg_def ddiv_def double_255_64 toString16_def hex_char_def nth_Cons' nth_append
      sum_list_replicate)

lemma phash_grid_cell31: "calculatePHash grid_cell31 = ''-80000000''"
  by (simp add: calculatePHash_def phash_bits_def grid_cell31_def upt_rec phash_step_def
      above_avg_def grid_avg_def ddiv_def double_255_64 toString16_def hex_char_def nth_Cons' nth_append
      sum_list_replicate)


section \<open>Properties of the fusion engine\<close>

text \<open>
  The score the code gives a group is the score of the specification's rule; the group
  the search ends with has a score no smaller than that of any group; and a character
  whose group has a positive score above every other group's is the one the consensus
  returns.
\<close>

lemma foldl_add_conf_Some:
  "list_all (\<lambda>c. cand_confidence c \<noteq> None) grp \<Longrightarrow>
   foldl add_conf (Some a) (map cand_confidence grp)
     = Some (foldl dadd a (map (\<lambda>r. fst (snd r)) (map report_of grp)))"
  by (induction grp arbitrary: a) (auto simp: report_of_def add_conf_def)

lemma spec_group_report_of:
  "spec_group (map report_of cands) k = map report_of (filter (\<lambda>c. char c = k) cands)"
  by (simp add: spec_group_def filter_map comp_def report_of_def)

lemma group_score_matches_spec:
  assumes "list_all (\<lambda>c. cand_confidence c \<noteq> None) cands"
  shows "group_score (filter (\<lambda>c. char c = k) cands) = Some (spec_score (map report_of cands) k)"
proof -
  let ?grp = "filter (\<lambda>c. char c = k) cands"
  from assms have "list_all (\<lambda>c. cand_confidence c \<noteq> None) ?grp"
    by (simp add: list_all_iff)
  then have s: "sum_conf (map cand_confidence ?grp)
      = Some (foldl dadd 0 (map (\<lambda>r. fst (snd r)) (map report_of ?grp)))"
    unfolding sum_conf_def by (rule foldl_add_conf_Some)
  have v: "list_all (\<lambda>r. snd (snd r)) (map report_of ?grp) = list_all positionValid ?grp"
    by (simp add: list_all_iff report_of_def)
  have l: "(2 \<le> length ?grp) = (1 < length ?grp)" by auto
  show ?thesis
    unfolding group_score_def spec_score_def spec_group_report_of Let_def s v spec_mean_def
    by (simp add: l)
qed

lemma fst_report_of: "fst (report_of x) = char x"
  by (simp add: report_of_def)

lemma group_keys_set: "set (group_keys cands) = char ` set cands"
  by (auto simp: group_keys_def first_occurrences_def Let_def)

lemma group_keys_distinct: "distinct (group_keys cands)"
  by (auto simp: group_keys_def first_occurrences_def Let_def)

lemma charGroups_keys: "map fst (charGroups cands) = group_keys cands"
  by (simp add: charGroups_def comp_def)

lemma charGroups_entry:
  "(k, g) \<in> set (charGroups cands) \<Longrightarrow> k \<in> char ` set cands \<and> g = filter (\<lambda>c. char c = k) cands"
  using group_keys_set [of cands] by (auto simp: charGroups_def)

lemma foldl_best_step_stays:
  "(\<And>k g s'. (k, g) \<in> set groups \<Longrightarrow> group_score g = Some s' \<Longrightarrow> s' \<le> s) \<Longrightarrow>
   foldl best_step (c, s, grp) groups = (c, s, grp)"
proof (induction groups)
  case Nil
  then show ?case by simp
next
  case (Cons e es)
  obtain k g where e: "e = (k, g)" by (cases e)
  have "best_step (c, s, grp) e = (c, s, grp)"
    using Cons.prems [of k g] by (auto simp: best_step_def e split: option.splits)
  moreover have "foldl best_step (c, s, grp) es = (c, s, grp)"
    using Cons.prems by (intro Cons.IH) auto
  ultimately show ?case by simp
qed

lemma foldl_best_step_picks:
  assumes "distinct (map fst groups)"
    and "(c, g) \<in> set groups"
    and "group_score g = Some s"
    and "\<And>k g' s'. (k, g') \<in> set groups \<Longrightarrow> k \<noteq> c \<Longrightarrow> group_score g' = Some s' \<Longrightarrow> s' < s"
    and "fst (snd acc) < s"
  shows "foldl best_step acc groups = (c, s, g)"
  using assms
proof (induction groups arbitrary: acc)
  case Nil
  then show ?case by simp
next
  case (Cons e es)
  obtain k g' where e: "e = (k, g')" by (cases e)
  obtain bc bs bg where acc: "acc = (bc, bs, bg)" by (cases acc)
  show ?case
  proof (cases "k = c")
    case True
    with Cons.prems(1,2) e have g': "g' = g"
      by (force simp: image_iff)
    have step: "best_step acc e = (c, s, g)"
      using Cons.prems(3,5) by (simp add: best_step_def e acc True g')
    have "foldl best_step (c, s, g) es = (c, s, g)"
    proof (rule foldl_best_step_stays)
      fix k' g'' s'
      assume in_es: "(k', g'') \<in> set es" and sc: "group_score g'' = Some s'"
      from in_es Cons.prems(1) e True have "k' \<noteq> c"
        by (force simp: image_iff)
      with Cons.prems(4) [of k' g'' s'] in_es sc show "s' \<le> s" by simp
    qed
    with step show ?thesis by simp
  next
    case False
    with Cons.prems(2) e have in_es: "(c, g) \<in> set es" by auto
    have lt: "fst (snd (best_step acc e)) < s"
      using Cons.prems(4) [of k g'] Cons.prems(5) False
      by (auto simp: best_step_def e acc split: option.splits)
    have "foldl best_step (best_step acc e) es = (c, s, g)"
      using Cons.prems(1,3,4) in_es lt by (intro Cons.IH) auto
    then show ?thesis by simp
  qed
qed

lemma cons_char_buildCharacterConsensus:
  "cons_char (buildCharacterConsensus cands position) =
     (case cands of [c] \<Rightarrow> char c | _ \<Rightarrow> fst (best_group (charGroups cands)))"
  by (simp add: buildCharacterConsensus_def Let_def split: list.split prod.split
      split del: if_split)

lemma consensus_picks_top_scoring:
  assumes ok: "list_all (\<lambda>c. cand_confidence c \<noteq> None) cands"
    and top: "spec_top_scoring (map report_of cands) c"
    and pos: "0 < spec_score (map report_of cands) c"
  shows "cons_char (buildCharacterConsensus cands position) = c"
proof -
  from top have "list_ex (\<lambda>r. fst r = c) (map report_of cands)"
    by (simp add: spec_top_scoring_def)
  then obtain x0 where "x0 \<in> set cands" "fst (report_of x0) = c"
    unfolding list_ex_iff by auto
  then have ex: "c \<in> char ` set cands"
    by (auto simp: fst_report_of)
  have others: "spec_score (map report_of cands) (char x) < spec_score (map report_of cands) c"
    if "x \<in> set cands" "char x \<noteq> c" for x
  proof -
    from top have "list_all (\<lambda>r. fst r = c \<or>
        spec_score (map report_of cands) (fst r) < spec_score (map report_of cands) c)
        (map report_of cands)"
      by (simp add: spec_top_scoring_def)
    with that(1) have "fst (report_of x) = c \<or>
        spec_score (map report_of cands) (fst (report_of x)) < spec_score (map report_of cands) c"
      unfolding list_all_iff by simp
    with that(2) show ?thesis by (simp add: fst_report_of)
  qed
  show ?thesis
  proof (cases cands)
    case Nil
    with ex show ?thesis by simp
  next
    case (Cons x xs)
    show ?thesis
    proof (cases xs)
      case Nil
      with Cons ex show ?thesis by (simp add: cons_char_buildCharacterConsensus)
    next
      case (Cons y ys)
      let ?g = "filter (\<lambda>x. char x = c) cands"
      let ?s = "spec_score (map report_of cands) c"
      have "best_group (charGroups cands) = (c, ?s, ?g)"
        unfolding best_group_def
      proof (rule foldl_best_step_picks)
        show "distinct (map fst (charGroups cands))"
          by (simp add: charGroups_keys group_keys_distinct)
        show "(c, ?g) \<in> set (charGroups cands)"
          using ex group_keys_set [of cands] by (auto simp: charGroups_def)
        show "group_score ?g = Some ?s"
          by (rule group_score_matches_spec [OF ok])
        show "fst (snd (CHR ''X'', 0::rat, [])) < ?s" using pos by simp
      next
        fix k g' s'
        assume in_g: "(k, g') \<in> set (charGroups cands)" and ne: "k \<noteq> c"
          and sc: "group_score g' = Some s'"
        from charGroups_entry [OF in_g] obtain x where x: "x \<in> set cands" "char x = k"
          and g': "g' = filter (\<lambda>c. char c = k) cands" by auto
        from sc g' group_score_matches_spec [OF ok, of k]
        have "s' = spec_score (map report_of cands) k" by simp
        with others [OF x(1)] x(2) ne show "s' < ?s" by simp
      qed
      then show ?thesis
        using \<open>cands = x # xs\<close> \<open>xs = y # ys\<close>
        by (simp add: cons_char_buildCharacterConsensus)
    qed
  qed
qed

lemma overall_confidence_range:
  "0 \<le> calculateOverallConfidence pc df \<and> calculateOverallConfidence pc df \<le> 100"
proof -
  have "0 \<le> js_round (max 0 (min 100 x)) \<and> js_round (max 0 (min 100 x)) \<le> 100" for x :: rat
    unfolding js_round_def by (auto simp: le_floor_iff floor_le_iff max_def min_def)
  then show ?thesis by (simp add: calculateOverallConfidence_def Let_def)
qed

lemma best_step_score_mono: "fst (snd acc) \<le> fst (snd (best_step acc entry))"
  by (cases acc; cases entry) (auto simp: best_step_def split: option.splits)

lemma best_step_dominates_entry:
  "group_score (snd entry) = Some sc \<Longrightarrow> sc \<le> fst (snd (best_step acc entry))"
  by (cases acc; cases entry) (auto simp: best_step_def split: option.splits)

lemma foldl_best_step_mono: "fst (snd acc) \<le> fst (snd (foldl best_step acc groups))"
proof (induction groups arbitrary: acc)
  case Nil
  then show ?case by simp
next
  case (Cons e es)
  have "fst (snd acc) \<le> fst (snd (best_step acc e))" by (rule best_step_score_mono)
  also have "\<dots> \<le> fst (snd (foldl best_step (best_step acc e) es))" by (rule Cons.IH)
  finally show ?case by simp
qed

lemma foldl_best_step_dominates:
  "entry \<in> set groups \<Longrightarrow> group_score (snd entry) = Some sc \<Longrightarrow>
   sc \<le> fst (snd (foldl best_step acc groups))"
proof (induction groups arbitrary: acc)
  case Nil
  then show ?case by simp
next
  case (Cons e es)
  show ?case
  proof (cases "entry = e")
    case True
    with Cons.prems have "sc \<le> fst (snd (best_step acc e))"
      by (simp add: best_step_dominates_entry)
    also have "\<dots> \<le> fst (snd (foldl best_step (best_step acc e) es))"
      by (rule foldl_best_step_mono)
    finally show ?thesis by simp
  next
    case False
    with Cons.prems have "entry \<in> set es" by simp
    from Cons.IH [OF this Cons.prems(2)] show ?thesis by simp
  qed
qed

lemma best_group_dominates:
  "entry \<in> set groups \<Longrightarrow> group_score (snd entry) = Some sc \<Longrightarrow>
   sc \<le> fst (snd (best_group groups))"
  unfolding best_group_def by (rule foldl_best_step_dominates)

lemma fused_arrays_same_length:
  "length (out_per_char_conf (fuseOCRResults this ocrResults ov)) =
     length (out_per_char_src (fuseOCRResults this ocrResults ov)) \<and>
   length (out_per_char_src (fuseOCRResults this ocrResults ov)) =
     length (out_damage_flags (fuseOCRResults this ocrResults ov))"
  by (simp add: fuseOCRResults_def createEmptyResult_def applyQualityGates_def
      performVariableLengthFusion_def Let_def)

lemma quality_gate_status:
  "out_status (applyQualityGates res st) \<in> {SUCCESS, REVIEW_REQUIRED, BAD_IMAGE}"
  by (simp add: applyQualityGates_def Let_def)

lemma quality_gate_bad_image_iff:
  "out_status (applyQualityGates res st) = BAD_IMAGE \<longleftrightarrow>
     5 \<le> count_X (fr_passport_number res) \<and>
     7 \<le> length (fr_passport_number res) \<and> length (fr_passport_number res) \<le> 9 \<and>
     length (filter (\<lambda>d. d) (fr_damage_flags res)) \<le> 3"
  by (auto simp: applyQualityGates_def Let_def)

lemma fused_status:
  "out_status (fuseOCRResults this ocrResults ov) \<in> {SUCCESS, REVIEW_REQUIRED, BAD_IMAGE, ERROR}"
  using quality_gate_status [of "performVariableLengthFusion (collect_sources this ocrResults)
      (effective_settings this ov)" "effective_settings this ov"]
  by (auto simp: fuseOCRResults_def createEmptyResult_def Let_def)

text \<open>
  C1.  The claim: a fused result with at least 5 placeholder characters gets the status
  \<open>BAD_IMAGE\<close>.  On the ten-character reading \<open>XXXXX67890\<close> the fused sequence is
  \<open>XXXXX6789\<close>, with 5 placeholders; each of them is flagged damaged, and the damage
  gate, which runs after the missing-character gate, overwrites \<open>BAD_IMAGE\<close> with
  \<open>REVIEW_REQUIRED\<close>.
\<close>

theorem five_placeholders_review_required:
  "out_passport_number (fuseOCRResults default_settings leading_placeholders no_override)
     = ''XXXXX6789'' \<and>
   count_X (out_passport_number (fuseOCRResults default_settings leading_placeholders no_override))
     = 5 \<and>
   out_damage_flags (fuseOCRResults default_settings leading_placeholders no_override)
     = [True, True, True, True, True, False, False, False, False] \<and>
   out_status (fuseOCRResults default_settings leading_placeholders no_override)
     = REVIEW_REQUIRED"
  by code_simp

text \<open>
  C2.  The claim: when the most frequent candidate length is 11, the fused sequence has at
  most 9 characters and the over-long candidate's reliability carries the length penalty.
  On the eleven-character reading \<open>C1234567890\<close> the working length is
  \<open>max 9 11 = 11\<close> and the fused sequence keeps all 11 characters; the reliability is
  \<open>1 * 0.5 * 0.7\<close>, the length penalty and the pattern penalty, the number \<open>0.35\<close>.
\<close>

theorem eleven_characters_not_trimmed:
  "getMostCommonLength (source_lengths (collect_sources default_settings eleven_characters))
     = 11 \<and>
   out_passport_number (fuseOCRResults default_settings eleven_characters no_override)
     = ''C1234567890'' \<and>
   length (out_passport_number (fuseOCRResults default_settings eleven_characters no_override))
     = 11 \<and>
   map reliability (collect_sources default_settings eleven_characters) = [double (7 / 20)]"
  by code_simp

text \<open>
  C6.  The claim: the character sequence and the three per-character arrays of every
  output have one length.  On the reading \<open>CXXXXX678\<close> the working length is 4, so
  positions 4 and 5 hold the empty string; joining the characters drops them, and the
  sequence \<open>CXXX678\<close> has 7 characters while the arrays have 9.
\<close>

theorem interior_gap_lengths_differ:
  "out_passport_number (fuseOCRResults default_settings interior_gap no_override)
     = ''CXXX678'' \<and>
   length (out_passport_number (fuseOCRResults default_settings interior_gap no_override)) = 7 \<and>
   length (out_per_char_conf (fuseOCRResults default_settings interior_gap no_override)) = 9 \<and>
   length (out_per_char_src (fuseOCRResults default_settings interior_gap no_override)) = 9 \<and>
   length (out_damage_flags (fuseOCRResults default_settings interior_gap no_override)) = 9 \<and>
   out_detected_length (fuseOCRResults default_settings interior_gap no_override) = Some 9"
  by code_simp

text \<open>
  C7.  The fused character of a position is the character of the group with the highest
  score under the weighted-group formula: whenever the reports of a position have a
  character whose group scores above zero and above every other group, the position
  loop writes that character.  In Scenario A at position 8 the reports that enter the
  grouping are \<open>9\<close> with weighted confidence 42 and \<open>8\<close> with 27.5, the scores are 47
  and 32.5, and the fused character is \<open>9\<close>, while the report with the highest raw
  confidence is the placeholder \<open>X\<close> (90).
\<close>

theorem fused_character_is_top_scoring_group:
  assumes "list_all (\<lambda>c. cand_confidence c \<noteq> None) (collect_candidates sources pos)"
    and "spec_top_scoring (map report_of (collect_candidates sources pos)) c"
    and "0 < spec_score (map report_of (collect_candidates sources pos)) c"
  shows "pos_char (fuse_position sources mostCommonLength pos) = [c]"
proof -
  from assms(2) have "collect_candidates sources pos \<noteq> []"
    by (auto simp: spec_top_scoring_def)
  then show ?thesis
    using consensus_picks_top_scoring [OF assms]
    by (simp add: fuse_position_def Let_def)
qed

text \<open>
  Scenario A, and its variant in which the readable report with the highest raw
  confidence, \<open>8\<close> at 80, loses to \<open>9\<close> at 60 (scores 45 and 47).
\<close>

theorem fused_character_is_top_scoring_group_witness:
  "list_all (\<lambda>c. cand_confidence c \<noteq> None)
     (collect_candidates (collect_sources default_settings scenario_A) 8) \<and>
   map report_of (collect_candidates (collect_sources default_settings scenario_A) 8)
     = [(CHR ''9'', 42, True), (CHR ''8'', 55 / 2, True)] \<and>
   spec_score (weighted_reports default_settings scenario_A 8) (CHR ''9'') = 47 \<and>
   spec_score (weighted_reports default_settings scenario_A 8) (CHR ''8'') = 65 / 2 \<and>
   spec_top_scoring (weighted_reports default_settings scenario_A 8) (CHR ''9'') \<and>
   pos_char (fuse_position (collect_sources default_settings scenario_A) 9 8) = ''9'' \<and>
   out_passport_number (fuseOCRResults default_settings scenario_A no_override) ! 8 = CHR ''9'' \<and>
   highest_raw_confidence (raw_reports scenario_A 8) (CHR ''X'') \<and>
   \<not> highest_raw_confidence (raw_reports scenario_A 8) (CHR ''9'') \<and>
   pos_char (fuse_position (collect_sources default_settings scenario_A_variant) 9 8) = ''9'' \<and>
   highest_raw_confidence (readable_reports (raw_reports scenario_A_variant 8)) (CHR ''8'') \<and>
   \<not> highest_raw_confidence (readable_reports (raw_reports scenario_A_variant 8)) (CHR ''9'')"
proof -
  let ?A = "collect_sources default_settings scenario_A"
  let ?V = "collect_sources default_settings scenario_A_variant"
  have a1: "list_all (\<lambda>c. cand_confidence c \<noteq> None) (collect_candidates ?A 8)"
    by code_simp
  have a2: "spec_top_scoring (map report_of (collect_candidates ?A 8)) (CHR ''9'')"
    by code_simp
  have a3: "0 < spec_score (map report_of (collect_candidates ?A 8)) (CHR ''9'')"
    by code_simp
  have v1: "list_all (\<lambda>c. cand_confidence c \<noteq> None) (collect_candidates ?V 8)"
    by code_simp
  have v2: "spec_top_scoring (map report_of (collect_candidates ?V 8)) (CHR ''9'')"
    by code_simp
  have v3: "0 < spec_score (map report_of (collect_candidates ?V 8)) (CHR ''9'')"
    by code_simp
  have r: "map report_of (collect_candidates ?A 8) = [(CHR ''9'', 42, True), (CHR ''8'', 55 / 2, True)]"
    by code_simp
  have s9: "spec_score (weighted_reports default_settings scenario_A 8) (CHR ''9'') = 47"
    by code_simp
  have s8: "spec_score (weighted_reports default_settings scenario_A 8) (CHR ''8'') = 65 / 2"
    by code_simp
  have n: "out_passport_number (fuseOCRResults default_settings scenario_A no_override) ! 8 = CHR ''9''"
    by code_simp
  have h: "highest_raw_confidence (raw_reports scenario_A 8) (CHR ''X'') \<and>
      \<not> highest_raw_confidence (raw_reports scenario_A 8) (CHR ''9'')"
    by code_simp
  have hv: "highest_raw_confidence (readable_reports (raw_reports scenario_A_variant 8)) (CHR ''8'') \<and>
      \<not> highest_raw_confidence (readable_reports (raw_reports scenario_A_variant 8)) (CHR ''9'')"
    by code_simp
  from fused_character_is_top_scoring_group [OF a1 a2 a3, of 9]
    fused_character_is_top_scoring_group [OF v1 v2 v3, of 9]
    a1 a2 r s9 s8 n h hv
  show ?thesis by (simp add: weighted_reports_def)
qed

text \<open>
  C9.  The claim: with every recognizer absent the result is \<open>ERROR\<close> and its reasons
  mention "no candidates available".  The status is \<open>ERROR\<close>; the reasons text is
  \<open>No OCR sources available\<close>, in which the phrase does not occur.
\<close>

theorem no_sources_reasons_counterexample:
  "\<not> mentions (out_reasons (fuseOCRResults default_settings no_sources no_override))
       ''no candidates available''"
  by code_simp

text \<open>
  C9, as amended.  With every recognizer absent, whatever the settings, the result has the
  status \<open>ERROR\<close> and the reasons text \<open>No OCR sources available\<close>.
\<close>

theorem no_sources_error_result:
  "out_status (fuseOCRResults this \<lparr>vision = None, tesseract = None, template = None\<rparr> ov) = ERROR \<and>
   out_reasons (fuseOCRResults this \<lparr>vision = None, tesseract = None, template = None\<rparr> ov)
     = ''No OCR sources available''"
  by (simp add: fuseOCRResults_def collect_sources_def make_source_def createEmptyResult_def)

section \<open>Properties of the fingerprint and of the duplicate detector\<close>

text \<open>
  C8.  The claim: the 64 threshold booleans go to 64 distinct bits.  The grid with only
  cell 0 above the mean and the grid with only cell 32 above the mean have the same
  fingerprint, \<open>1\<close>: \<open>1 << 32\<close> is \<open>1 << 0\<close>.
\<close>

theorem phash_cells_0_and_32_share_a_bit:
  "above_avg grid_cell0 0 \<and> \<not> above_avg grid_cell0 32 \<and>
   \<not> above_avg grid_cell32 0 \<and> above_avg grid_cell32 32 \<and>
   calculatePHash grid_cell0 = ''1'' \<and> calculatePHash grid_cell32 = ''1''"
  by (simp add: phash_grid_cell0 phash_grid_cell32)
     (simp add: above_avg_def grid_avg_def ddiv_def double_255_64 grid_cell0_def
        grid_cell32_def nth_append sum_list_replicate)

text \<open>
  C10.  The claim: \<open>calculateHammingDistance\<close> returns for every pair of hexadecimal
  fingerprints, a negative 32-bit XOR included.  The fingerprint of the grid with only
  cell 31 above the mean is \<open>-80000000\<close>; against the fingerprint \<open>1\<close> the XOR is
  negative, the sign-propagating shift never reaches 0, and the loop does not return.
  The same happens on \<open>80000000\<close> against \<open>0\<close>.
\<close>

theorem hamming_distance_diverges_on_negative_xor:
  "calculatePHash grid_cell31 = ''-80000000'' \<and>
   calculateHammingDistance (Some ''-80000000'') (Some ''1'') = None \<and>
   calculateHammingDistance (Some ''80000000'') (Some ''0'') = None"
proof -
  have a: "ToInt32 (parseInt16 ''-80000000'') XOR ToInt32 (parseInt16 ''1'') = word_of_int (- 2147483647)"
    by (simp add: parseInt16_def is_js_space_def is_hex_digit_def hex_digit_val_def ToInt32_def
        double_small_integers)
  have b: "ToInt32 (parseInt16 ''80000000'') XOR ToInt32 (parseInt16 ''0'') = word_of_int 2147483648"
    by (simp add: parseInt16_def is_js_space_def is_hex_digit_def hex_digit_val_def ToInt32_def
        double_small_integers)
  have "bit (word_of_int (- 2147483647) :: int32) 31"
    by (simp add: bit_simps)
  then have a': "count_set_bits (word_of_int (- 2147483647)) 0 = None"
    by (rule count_set_bits_negative_diverges)
  have "bit (word_of_int 2147483648 :: int32) 31"
    by (simp add: bit_simps)
  then have b': "count_set_bits (word_of_int 2147483648) 0 = None"
    by (rule count_set_bits_negative_diverges)
  show ?thesis
    using a a' b b' by (simp add: calculateHammingDistance_def phash_grid_cell31 Let_def)
qed

text \<open>
  C4.  The claim: in Scenario C with auto-confirm enabled the new link has its
  \<open>confirmed\<close> flag set.  The search for image \<open>A\<close> finds \<open>B\<close> at distance 3 and
  inserts the link \<open>(A, B)\<close> with \<open>confirmed\<close> at the column default, \<open>False\<close>.
\<close>

theorem scenario_C_link_not_confirmed:
  "autoConfirmDuplicates auto_confirm_settings \<and>
   map_option (\<lambda>p. map confirmed (duplicates (fst p)))
     (findDuplicates auto_confirm_settings scenario_C_db ''A'' ''C12345678'') = Some [False]"
  by (simp add: findDuplicates_def duplicate_query_def matches_query_def max_version_def
      scenario_C_db_def getImagePHash_def hamming_7_0 auto_confirm_settings_def
      insert_or_ignore_duplicate_def same_ordered_pair_def)

text \<open>
  What a run of the search does to the links: it keeps the stored ones, every one it adds
  is an unconfirmed link from the searched image to an image of a returned row at the
  distance computed for that row, and every returned row within the threshold has its
  ordered pair in the store afterwards.
\<close>

lemma getImagePHash_duplicates:
  "getImagePHash (db\<lparr>duplicates := ds\<rparr>) imageId = getImagePHash db imageId"
  by (simp add: getImagePHash_def)

lemma insert_or_ignore_set:
  "set (insert_or_ignore_duplicate a b h t ds) \<subseteq>
     insert \<lparr>image_id_a = a, image_id_b = b, hamming = h, text_distance = t, confirmed = False\<rparr>
       (set ds)"
  by (auto simp: insert_or_ignore_duplicate_def)

lemma insert_or_ignore_keeps: "set ds \<subseteq> set (insert_or_ignore_duplicate a b h t ds)"
  by (auto simp: insert_or_ignore_duplicate_def)

lemma insert_or_ignore_has_pair:
  "list_ex (same_ordered_pair a b) (insert_or_ignore_duplicate a b h t ds)"
  by (auto simp: insert_or_ignore_duplicate_def same_ordered_pair_def list_ex_iff)

lemma find_loop_keeps:
  "find_loop st imageId rows db dups = Some (db', dups') \<Longrightarrow>
   set (duplicates db) \<subseteq> set (duplicates db')"
proof (induction st imageId rows db dups rule: find_loop.induct)
  case (1 st imageId db dups)
  then show ?case by simp
next
  case (2 st imageId i r rows db dups)
  then show ?case
    using insert_or_ignore_keeps
    by (fastforce split: option.splits if_splits)
qed

lemma find_loop_new_links:
  "find_loop st imageId rows db dups = Some (db', dups') \<Longrightarrow> d \<in> set (duplicates db') \<Longrightarrow>
   d \<in> set (duplicates db) \<or>
   (\<exists>i r h. (i, r) \<in> set rows \<and>
      calculateHammingDistance (getImagePHash db imageId) (phash i) = Some h \<and>
      d = \<lparr>image_id_a = imageId, image_id_b = img_id i, hamming = h, text_distance = 0,
            confirmed = False\<rparr>)"
proof (induction st imageId rows db dups rule: find_loop.induct)
  case (1 st imageId db dups)
  then show ?case by simp
next
  case (2 st imageId i r rows db dups)
  show ?case
  proof (cases "calculateHammingDistance (getImagePHash db imageId) (phash i)")
    case None
    with "2.prems" show ?thesis by simp
  next
    case (Some h)
    show ?thesis
    proof (cases "h \<le> dupPhashThreshold st")
      case True
      let ?db = "db\<lparr>duplicates := insert_or_ignore_duplicate imageId (img_id i) h 0 (duplicates db)\<rparr>"
      from "2.prems" Some True
      have run: "find_loop st imageId rows ?db
          (dups @ [\<lparr>hit_imageId = img_id i, hit_hammingDistance = h,
                     hit_passportNumber = res_passport_number r\<rparr>]) = Some (db', dups')"
        by simp
      from "2.IH"(1) [OF Some True run "2.prems"(2)]
      consider "d \<in> set (duplicates ?db)"
        | i' r' h' where "(i', r') \<in> set rows"
            "calculateHammingDistance (getImagePHash ?db imageId) (phash i') = Some h'"
            "d = \<lparr>image_id_a = imageId, image_id_b = img_id i', hamming = h', text_distance = 0,
                  confirmed = False\<rparr>"
        by blast
      then show ?thesis
      proof cases
        case 1
        with insert_or_ignore_set [of imageId "img_id i" h 0 "duplicates db"]
        have "d \<in> set (duplicates db) \<or>
              d = \<lparr>image_id_a = imageId, image_id_b = img_id i, hamming = h, text_distance = 0,
                    confirmed = False\<rparr>"
          by auto
        with Some show ?thesis by auto
      next
        case 2
        then show ?thesis by (auto simp: getImagePHash_duplicates)
      qed
    next
      case False
      from "2.prems" Some False
      have run: "find_loop st imageId rows db dups = Some (db', dups')" by simp
      from "2.IH"(2) [OF Some False run "2.prems"(2)] show ?thesis by auto
    qed
  qed
qed

lemma find_loop_covers:
  "find_loop st imageId rows db dups = Some (db', dups') \<Longrightarrow> (i, r) \<in> set rows \<Longrightarrow>
   calculateHammingDistance (getImagePHash db imageId) (phash i) = Some h \<Longrightarrow>
   h \<le> dupPhashThreshold st \<Longrightarrow>
   list_ex (same_ordered_pair imageId (img_id i)) (duplicates db')"
proof (induction st imageId rows db dups rule: find_loop.induct)
  case (1 st imageId db dups)
  then show ?case by simp
next
  case (2 st imageId j q rows db dups)
  show ?case
  proof (cases "calculateHammingDistance (getImagePHash db imageId) (phash j)")
    case None
    with "2.prems" show ?thesis by simp
  next
    case (Some hj)
    show ?thesis
    proof (cases "hj \<le> dupPhashThreshold st")
      case True
      let ?db = "db\<lparr>duplicates := insert_or_ignore_duplicate imageId (img_id j) hj 0 (duplicates db)\<rparr>"
      from "2.prems" Some True
      have run: "find_loop st imageId rows ?db
          (dups @ [\<lparr>hit_imageId = img_id j, hit_hammingDistance = hj,
                     hit_passportNumber = res_passport_number q\<rparr>]) = Some (db', dups')"
        by simp
      show ?thesis
      proof (cases "(i, r) \<in> set rows")
        case True
        from "2.prems"(3) have "calculateHammingDistance (getImagePHash ?db imageId) (phash i) = Some h"
          by (simp add: getImagePHash_duplicates)
        from "2.IH"(1) [OF Some \<open>hj \<le> dupPhashThreshold st\<close> run True this "2.prems"(4)]
        show ?thesis .
      next
        case False
        with "2.prems"(2) have eq: "i = j" by auto
        have "list_ex (same_ordered_pair imageId (img_id i)) (duplicates ?db)"
          by (simp add: eq insert_or_ignore_has_pair)
        with find_loop_keeps [OF run] show ?thesis
          by (auto simp: list_ex_iff)
      qed
    next
      case False
      from "2.prems" Some False
      have run: "find_loop st imageId rows db dups = Some (db', dups')" by simp
      from "2.prems"(2,3) Some False "2.prems"(4) have "(i, r) \<in> set rows"
        by auto
      from "2.IH"(2) [OF Some False run this "2.prems"(3,4)] show ?thesis .
    qed
  qed
qed

lemma duplicate_query_images:
  "(i, r) \<in> set (duplicate_query db passportNumber imageId) \<Longrightarrow> i \<in> set (images db)"
  by (auto simp: duplicate_query_def)

text \<open>
  C4, as amended.  Whenever the search for a freshly fused image returns, one of the
  rows it found is an image at distance 3, the duplicate threshold is at least 3, and no
  link for that ordered pair is stored yet, the store afterwards holds the link from the
  new image to that image with distance 3 recorded and \<open>confirmed\<close> unset, whatever
  \<open>autoConfirmDuplicates\<close> is.  Image ids are unique, as the primary key has it.
\<close>

theorem detected_link_is_unconfirmed:
  assumes ret: "findDuplicates st db imageId passportNumber = Some (db', dups)"
    and row: "(i, r) \<in> set (duplicate_query db passportNumber imageId)"
    and dist: "calculateHammingDistance (getImagePHash db imageId) (phash i) = Some 3"
    and thr: "3 \<le> dupPhashThreshold st"
    and fresh: "\<not> list_ex (same_ordered_pair imageId (img_id i)) (duplicates db)"
    and keys: "distinct (map img_id (images db))"
  shows "link imageId (img_id i) 3 \<in> set (duplicates db') \<and>
         \<not> confirmed (link imageId (img_id i) 3)"
proof -
  let ?rows = "duplicate_query db passportNumber imageId"
  from ret have run: "find_loop st imageId ?rows db [] = Some (db', dups)"
    by (simp add: findDuplicates_def)
  from find_loop_covers [OF run row dist thr]
  obtain d where d: "d \<in> set (duplicates db')" "image_id_a d = imageId" "image_id_b d = img_id i"
    by (auto simp: list_ex_iff same_ordered_pair_def)
  from fresh d(2,3) have "d \<notin> set (duplicates db)"
    by (auto simp: list_ex_iff same_ordered_pair_def)
  with find_loop_new_links [OF run d(1)]
  obtain i' r' h where new: "(i', r') \<in> set ?rows"
      "calculateHammingDistance (getImagePHash db imageId) (phash i') = Some h"
      "d = \<lparr>image_id_a = imageId, image_id_b = img_id i', hamming = h, text_distance = 0,
            confirmed = False\<rparr>"
    by blast
  from new(3) d(3) have same_id: "img_id i' = img_id i" by simp
  from duplicate_query_images [OF row] duplicate_query_images [OF new(1)] keys same_id
  have "i' = i"
    by (auto simp: distinct_map inj_on_def)
  with new(2) dist have "h = 3" by simp
  with new(3) same_id have "d = link imageId (img_id i) 3"
    by (simp add: link_def)
  with d(1) show ?thesis by (simp add: link_def)
qed

text \<open>Scenario C, with \<open>autoConfirmDuplicates\<close> switched on.\<close>

theorem detected_link_is_unconfirmed_witness:
  "autoConfirmDuplicates auto_confirm_settings \<and>
   findDuplicates auto_confirm_settings scenario_C_db ''A'' ''C12345678'' =
     Some (scenario_C_db\<lparr>duplicates := [link ''A'' ''B'' 3]\<rparr>,
           [\<lparr>hit_imageId = ''B'', hit_hammingDistance = 3,
             hit_passportNumber = Some ''C12345678''\<rparr>]) \<and>
   link ''A'' ''B'' 3 \<in> set (duplicates (scenario_C_db\<lparr>duplicates := [link ''A'' ''B'' 3]\<rparr>)) \<and>
   \<not> confirmed (link ''A'' ''B'' 3)"
proof -
  let ?i = "\<lparr>img_id = ''B'', img_job_id = ''J'', phash = Some ''0'', upload_ts = 1\<rparr>"
  let ?r = "\<lparr>res_image_id = ''B'', res_job_id = ''J'', version = 1,
             res_passport_number = Some ''C12345678'', res_status = SUCCESS\<rparr>"
  let ?db' = "scenario_C_db\<lparr>duplicates := [link ''A'' ''B'' 3]\<rparr>"
  let ?dups = "[\<lparr>hit_imageId = ''B'', hit_hammingDistance = 3,
             hit_passportNumber = Some ''C12345678''\<rparr>]"
  have ret: "findDuplicates auto_confirm_settings scenario_C_db ''A'' ''C12345678'' = Some (?db', ?dups)"
    by (simp add: findDuplicates_def duplicate_query_def matches_query_def max_version_def
        scenario_C_db_def getImagePHash_def hamming_7_0 auto_confirm_settings_def
        insert_or_ignore_duplicate_def link_def same_ordered_pair_def)
  have row: "(?i, ?r) \<in> set (duplicate_query scenario_C_db ''C12345678'' ''A'')"
    by (simp add: duplicate_query_def matches_query_def max_version_def scenario_C_db_def)
  have dist: "calculateHammingDistance (getImagePHash scenario_C_db ''A'') (phash ?i) = Some 3"
    by (simp add: getImagePHash_def scenario_C_db_def hamming_7_0)
  have thr: "3 \<le> dupPhashThreshold auto_confirm_settings"
    by (simp add: auto_confirm_settings_def)
  have fresh: "\<not> list_ex (same_ordered_pair ''A'' (img_id ?i)) (duplicates scenario_C_db)"
    by (simp add: scenario_C_db_def)
  have keys: "distinct (map img_id (images scenario_C_db))"
    by (simp add: scenario_C_db_def)
  from detected_link_is_unconfirmed [OF ret row dist thr fresh keys] ret
  show ?thesis by (simp add: auto_confirm_settings_def)
qed

text \<open>What the uniqueness constraint does give: no two links with the same ordered pair.\<close>

lemma insert_keeps_ordered_pairs_distinct:
  "distinct (map ordered_pair ds) \<Longrightarrow>
   distinct (map ordered_pair (insert_or_ignore_duplicate a b h t ds))"
  by (auto simp: insert_or_ignore_duplicate_def list_ex_iff same_ordered_pair_def ordered_pair_def)

lemma find_loop_keeps_ordered_pairs_distinct:
  "find_loop st imageId rows db dups = Some (db', dups') \<Longrightarrow>
   distinct (map ordered_pair (duplicates db)) \<Longrightarrow>
   distinct (map ordered_pair (duplicates db'))"
proof (induction st imageId rows db dups rule: find_loop.induct)
  case (1 st imageId db dups)
  then show ?case by simp
next
  case (2 st imageId i r rows db dups)
  then show ?case
    by (auto split: option.splits if_splits simp: insert_keeps_ordered_pairs_distinct)
qed

lemma findDuplicates_keeps_ordered_pairs_distinct:
  "findDuplicates st db imageId pn = Some (db', dups) \<Longrightarrow>
   distinct (map ordered_pair (duplicates db)) \<Longrightarrow>
   distinct (map ordered_pair (duplicates db'))"
  unfolding findDuplicates_def by (rule find_loop_keeps_ordered_pairs_distinct)

text \<open>
  C5.  The claim: once a link \<open>(A, B)\<close> exists, processing either image never inserts
  \<open>(B, A)\<close>.  With \<open>(A, B)\<close> in the store, the search for image \<open>B\<close> finds \<open>A\<close> and
  inserts \<open>(B, A)\<close>: the uniqueness constraint is on the ordered pair.
\<close>

theorem mirrored_link_inserted:
  "map_option (\<lambda>p. duplicates (fst p))
     (findDuplicates default_detector_settings
        (scenario_C_db\<lparr>duplicates := [link ''A'' ''B'' 3]\<rparr>) ''B'' ''C12345678'')
   = Some [link ''A'' ''B'' 3, link ''B'' ''A'' 3]"
  by (simp add: findDuplicates_def duplicate_query_def matches_query_def max_version_def
      scenario_C_db_def getImagePHash_def hamming_0_7 default_detector_settings_def
      insert_or_ignore_duplicate_def link_def same_ordered_pair_def)

section \<open>Properties of the scheduler\<close>

text \<open>
  C3.  The claim: \<open>start\<close> enqueues exactly the images of the job without a result, and
  on a running job it changes nothing.  In the job with images \<open>I1\<close> (which has a
  result) and \<open>I2\<close>, \<open>startJob\<close> enqueues both, while \<open>getPendingImages\<close> of the
  direct-loop variant selects \<open>I2\<close> only; a second \<open>startJob\<close> on the running job
  enqueues both again.
\<close>

theorem startJob_enqueues_all_images_again:
  "map img_id (getPendingImages job_db ''J'') = [''I2''] \<and>
   q_preprocess (startJob new_pipeline job_db ''J'') = [job_task ''I1'', job_task ''I2''] \<and>
   ''J'' \<in> runningJobs (startJob new_pipeline job_db ''J'') \<and>
   q_preprocess (startJob (startJob new_pipeline job_db ''J'') job_db ''J'')
     = [job_task ''I1'', job_task ''I2'', job_task ''I1'', job_task ''I2''] \<and>
   startJob (startJob new_pipeline job_db ''J'') job_db ''J'' \<noteq> startJob new_pipeline job_db ''J''"
proof -
  have q1: "q_preprocess (startJob new_pipeline job_db ''J'') = [job_task ''I1'', job_task ''I2'']"
    by (simp add: startJob_def new_pipeline_def job_db_def job_task_def)
  have q2: "q_preprocess (startJob (startJob new_pipeline job_db ''J'') job_db ''J'')
     = [job_task ''I1'', job_task ''I2'', job_task ''I1'', job_task ''I2'']"
    by (simp add: startJob_def new_pipeline_def job_db_def job_task_def)
  have ne: "startJob (startJob new_pipeline job_db ''J'') job_db ''J'' \<noteq> startJob new_pipeline job_db ''J''"
  proof
    assume "startJob (startJob new_pipeline job_db ''J'') job_db ''J'' = startJob new_pipeline job_db ''J''"
    then have "q_preprocess (startJob (startJob new_pipeline job_db ''J'') job_db ''J'')
       = q_preprocess (startJob new_pipeline job_db ''J'')" by simp
    then show False unfolding q1 q2 by simp
  qed
  have p: "map img_id (getPendingImages job_db ''J'') = [''I2'']"
    by (simp add: getPendingImages_def job_db_def has_result_def)
  have r: "''J'' \<in> runningJobs (startJob new_pipeline job_db ''J'')"
    by (simp add: startJob_def)
  from p q1 r q2 ne show ?thesis by simp
qed

end
